theory Spec2Isabelle
  imports Complex_Main "HOL-Library.AList" "HOL-Library.Multiset" "HOL-Library.Product_Lexorder"
    "HOL-Library.Option_ord"
begin

section \<open>JavaScript numbers\<close>

text \<open>
  A JavaScript number is an IEEE 754 binary64 value. The finite ones are rationals, so a
  number is \<open>NaN\<close>, an infinity or \<open>Fin x\<close> with \<open>x\<close> rational. The two zeros are
  identified: every use of a number in the code below (\<open>typeof\<close>, \<open>Number.isInteger\<close>,
  \<open><\<close>, \<open>>\<close>, \<open>>=\<close>, \<open>===\<close>, \<open>Math.abs(...) > 1\<close>) answers the same on \<open>+0\<close> and \<open>-0\<close>.
  A division by zero takes the divisor as \<open>+0\<close>; on the divisor \<open>-0\<close> JavaScript gives
  the infinity of the other sign, so \<open>js_div\<close> is the operator \<open>/\<close> up to the sign of an
  infinite quotient. The quotients of the code are not read with their sign: the
  validator and the pre-save hook pass theirs through \<open>Math.abs(score - ...) > 1\<close>, which
  answers the same on both infinities, and the client divides two array counts, which
  are never \<open>-0\<close>.
\<close>

datatype jsnum = NaN | PInf | NInf | Fin rat

text \<open>Number of binary digits of a positive integer (0 for the others).\<close>

function bitlen :: "int \<Rightarrow> int" where
  "bitlen n = (if n \<le> 0 then 0 else 1 + bitlen (n div 2))"
  by pat_completeness auto
termination
  by (relation "measure nat") auto

declare bitlen.simps [simp del]

text \<open>The binary exponent \<open>\<lfloor>log\<^sub>2 a\<rfloor>\<close> of a positive rational.\<close>

definition ilog2 :: "rat \<Rightarrow> int" where
  "ilog2 a = (if 1 \<le> a then bitlen \<lfloor>a\<rfloor> - 1 else - bitlen (\<lceil>1 / a\<rceil> - 1))"

definition round_half_even :: "rat \<Rightarrow> int" where
  "round_half_even y =
     (let f = \<lfloor>y\<rfloor>; d = y - of_int f
      in if d < 1 / 2 then f else if 1 / 2 < d then f + 1 else if even f then f else f + 1)"

text \<open>
  Rounding of an exact result to binary64, to nearest with ties to even: 53 significant
  bits, the exponent of the last place not below \<open>-1074\<close> (subnormals), overflow to an
  infinity from \<open>2\<^sup>1\<^sup>0\<^sup>2\<^sup>4\<close> on.
\<close>

definition fl :: "rat \<Rightarrow> jsnum" where
  "fl x =
     (if x = 0 then Fin 0
      else
        (let a = \<bar>x\<bar>; e = max (ilog2 a) (- 1022); q = 2 powi (e - 52);
             r = of_int (round_half_even (a / q)) * q
         in if 2 powi 1024 \<le> r then (if 0 < x then PInf else NInf)
            else Fin (if 0 < x then r else - r)))"

text \<open>The operators \<open>/\<close>, \<open>*\<close> and \<open>-\<close> on numbers.\<close>

fun js_div :: "jsnum \<Rightarrow> jsnum \<Rightarrow> jsnum" where
  "js_div NaN _ = NaN"
| "js_div _ NaN = NaN"
| "js_div (Fin x) (Fin y) =
     (if y = 0 then (if x = 0 then NaN else if 0 < x then PInf else NInf) else fl (x / y))"
| "js_div (Fin x) _ = Fin 0"
| "js_div PInf (Fin y) = (if 0 \<le> y then PInf else NInf)"
| "js_div NInf (Fin y) = (if 0 \<le> y then NInf else PInf)"
| "js_div _ _ = NaN"

fun js_mul :: "jsnum \<Rightarrow> jsnum \<Rightarrow> jsnum" where
  "js_mul NaN _ = NaN"
| "js_mul _ NaN = NaN"
| "js_mul (Fin x) (Fin y) = fl (x * y)"
| "js_mul (Fin x) PInf = (if x = 0 then NaN else if 0 < x then PInf else NInf)"
| "js_mul (Fin x) NInf = (if x = 0 then NaN else if 0 < x then NInf else PInf)"
| "js_mul PInf (Fin y) = (if y = 0 then NaN else if 0 < y then PInf else NInf)"
| "js_mul NInf (Fin y) = (if y = 0 then NaN else if 0 < y then NInf else PInf)"
| "js_mul PInf PInf = PInf"
| "js_mul NInf NInf = PInf"
| "js_mul _ _ = NInf"

fun js_sub :: "jsnum \<Rightarrow> jsnum \<Rightarrow> jsnum" where
  "js_sub NaN _ = NaN"
| "js_sub _ NaN = NaN"
| "js_sub (Fin x) (Fin y) = fl (x - y)"
| "js_sub (Fin x) PInf = NInf"
| "js_sub (Fin x) NInf = PInf"
| "js_sub PInf PInf = NaN"
| "js_sub NInf NInf = NaN"
| "js_sub PInf _ = PInf"
| "js_sub NInf _ = NInf"

text \<open>\<open>Math.abs\<close> and \<open>Math.round\<close> (to the nearest integer, a tie towards \<open>+\<infinity>\<close>).\<close>

fun Math_abs :: "jsnum \<Rightarrow> jsnum" where
  "Math_abs NaN = NaN"
| "Math_abs PInf = PInf"
| "Math_abs NInf = PInf"
| "Math_abs (Fin x) = Fin \<bar>x\<bar>"

fun Math_round :: "jsnum \<Rightarrow> jsnum" where
  "Math_round (Fin x) = Fin (of_int \<lfloor>x + 1 / 2\<rfloor>)"
| "Math_round n = n"

text \<open>The comparisons: every comparison with \<open>NaN\<close> is false.\<close>

fun js_lt :: "jsnum \<Rightarrow> jsnum \<Rightarrow> bool" where
  "js_lt NaN _ = False"
| "js_lt _ NaN = False"
| "js_lt (Fin x) (Fin y) = (x < y)"
| "js_lt NInf NInf = False"
| "js_lt NInf _ = True"
| "js_lt _ NInf = False"
| "js_lt PInf _ = False"
| "js_lt (Fin x) PInf = True"

definition js_gt :: "jsnum \<Rightarrow> jsnum \<Rightarrow> bool" where
  "js_gt a b = js_lt b a"

definition js_ge :: "jsnum \<Rightarrow> jsnum \<Rightarrow> bool" where
  "js_ge a b = (a \<noteq> NaN \<and> b \<noteq> NaN \<and> \<not> js_lt a b)"

definition js_strict_eq :: "jsnum \<Rightarrow> jsnum \<Rightarrow> bool" where
  "js_strict_eq a b = (a \<noteq> NaN \<and> a = b)"

definition integral :: "rat \<Rightarrow> bool" where
  "integral x = (of_int \<lfloor>x\<rfloor> = x)"

fun Number_isInteger :: "jsnum \<Rightarrow> bool" where
  "Number_isInteger (Fin x) = integral x"
| "Number_isInteger _ = False"

section \<open>JavaScript values of a request body\<close>

text \<open>
  The values \<open>JSON.parse\<close> can put into \<open>req.body\<close>, and \<open>undefined\<close> for a property
  that is absent. An object is the list of its own properties in enumeration order.
\<close>

datatype jsval =
    JUndefined
  | JNull
  | JBool bool
  | JNum jsnum
  | JStr string
  | JArr "jsval list"
  | JObj "(string \<times> jsval) list"

fun typeof :: "jsval \<Rightarrow> string" where
  "typeof JUndefined = ''undefined''"
| "typeof JNull = ''object''"
| "typeof (JBool _) = ''boolean''"
| "typeof (JNum _) = ''number''"
| "typeof (JStr _) = ''string''"
| "typeof (JArr _) = ''object''"
| "typeof (JObj _) = ''object''"

text \<open>Truthiness, as \<open>!stats\<close> tests it.\<close>

fun truthy :: "jsval \<Rightarrow> bool" where
  "truthy JUndefined = False"
| "truthy JNull = False"
| "truthy (JBool b) = b"
| "truthy (JNum n) = (n \<noteq> NaN \<and> n \<noteq> Fin 0)"
| "truthy (JStr s) = (s \<noteq> [])"
| "truthy (JArr _) = True"
| "truthy (JObj _) = True"

fun string_of_nat :: "nat \<Rightarrow> string" where
  "string_of_nat n =
     (if n < 10 then [char_of (48 + n)]
      else string_of_nat (n div 10) @ [char_of (48 + n mod 10)])"

declare string_of_nat.simps [simp del]

text \<open>\<open>Object.entries\<close> of an object or an array (an array has its indices as keys).\<close>

fun Object_entries :: "jsval \<Rightarrow> (string \<times> jsval) list" where
  "Object_entries (JObj kvs) = kvs"
| "Object_entries (JArr xs) = zip (map string_of_nat [0..<length xs]) xs"
| "Object_entries _ = []"

text \<open>
  Reading the property \<open>correct\<close> or \<open>total\<close> of a value that is not \<open>null\<close> or
  \<open>undefined\<close>: an own property of an object, \<open>undefined\<close> on anything else (neither
  name is an index or \<open>length\<close>, and no prototype has them).
\<close>

fun get_prop :: "jsval \<Rightarrow> string \<Rightarrow> jsval" where
  "get_prop (JObj kvs) name = (case map_of kvs name of Some v \<Rightarrow> v | None \<Rightarrow> JUndefined)"
| "get_prop _ name = JUndefined"

section \<open>The validation middleware: \<open>ValidationMiddleware.validateQuizSubmission\<close>\<close>

text \<open>
  The five properties of \<open>req.body\<close> that
  \<open>const { score, totalQuestions, correctAnswers, timeTaken, categories } = req.body\<close>
  reads.
\<close>

record quiz_body =
  body_score :: jsval
  body_totalQuestions :: jsval
  body_correctAnswers :: jsval
  body_timeTaken :: jsval
  body_categories :: jsval

text \<open>
  The object \<open>errors\<close>: its properties in insertion order. \<open>errors.k = v\<close> is
  \<open>AList.update k v\<close>, which overwrites in place or appends.
\<close>

type_synonym errors = "(string \<times> string) list"

datatype response = Next | Status400 errors

text \<open>The block \<open>// Score validation\<close>.\<close>

definition check_score :: "jsval \<Rightarrow> errors \<Rightarrow> errors" where
  "check_score score errors =
     (case score of
        JNum n \<Rightarrow>
          if \<not> Number_isInteger n then
            AList.update ''score'' ''Score must be a whole number'' errors
          else if js_lt n (Fin 0) \<or> js_gt n (Fin 100) then
            AList.update ''score'' ''Score must be between 0 and 100'' errors
          else errors
      | _ \<Rightarrow> AList.update ''score'' ''Score must be a number'' errors)"

text \<open>The block \<open>// Total questions validation\<close>.\<close>

definition check_totalQuestions :: "jsval \<Rightarrow> errors \<Rightarrow> errors" where
  "check_totalQuestions totalQuestions errors =
     (case totalQuestions of
        JNum n \<Rightarrow>
          if \<not> Number_isInteger n then
            AList.update ''totalQuestions'' ''Total questions must be a whole number'' errors
          else if js_lt n (Fin 1) \<or> js_gt n (Fin 50) then
            AList.update ''totalQuestions'' ''Total questions must be between 1 and 50'' errors
          else errors
      | _ \<Rightarrow> AList.update ''totalQuestions'' ''Total questions must be a number'' errors)"

text \<open>The block \<open>// Correct answers validation\<close>.\<close>

definition check_correctAnswers :: "jsval \<Rightarrow> jsval \<Rightarrow> errors \<Rightarrow> errors" where
  "check_correctAnswers correctAnswers totalQuestions errors =
     (case correctAnswers of
        JNum n \<Rightarrow>
          if \<not> Number_isInteger n then
            AList.update ''correctAnswers'' ''Correct answers must be a whole number'' errors
          else if js_lt n (Fin 0) then
            AList.update ''correctAnswers'' ''Correct answers cannot be negative'' errors
          else if (case totalQuestions of JNum t \<Rightarrow> js_gt n t | _ \<Rightarrow> False) then
            AList.update ''correctAnswers'' ''Correct answers cannot exceed total questions'' errors
          else errors
      | _ \<Rightarrow> AList.update ''correctAnswers'' ''Correct answers must be a number'' errors)"

text \<open>\<open>Math.round((correctAnswers / totalQuestions) * 100)\<close>.\<close>

definition calculatedScore :: "jsnum \<Rightarrow> jsnum \<Rightarrow> jsnum" where
  "calculatedScore correctAnswers totalQuestions =
     Math_round (js_mul (js_div correctAnswers totalQuestions) (Fin 100))"

text \<open>The block \<open>// Cross-validation: check if score matches calculation\<close>.\<close>

definition check_cross :: "jsval \<Rightarrow> jsval \<Rightarrow> jsval \<Rightarrow> errors \<Rightarrow> errors" where
  "check_cross score totalQuestions correctAnswers errors =
     (case (score, totalQuestions, correctAnswers) of
        (JNum s, JNum t, JNum c) \<Rightarrow>
          if js_gt (Math_abs (js_sub s (calculatedScore c t))) (Fin 1) then
            AList.update ''score''
              ''Score does not match the correct answers and total questions'' errors
          else errors
      | _ \<Rightarrow> errors)"

text \<open>The block \<open>// Time taken validation (optional)\<close>.\<close>

definition check_timeTaken :: "jsval \<Rightarrow> errors \<Rightarrow> errors" where
  "check_timeTaken timeTaken errors =
     (if timeTaken \<noteq> JUndefined \<and> timeTaken \<noteq> JNull then
        (case timeTaken of
           JNum n \<Rightarrow>
             if \<not> Number_isInteger n then
               AList.update ''timeTaken'' ''Time taken must be a whole number of seconds'' errors
             else if js_lt n (Fin 1) then
               AList.update ''timeTaken'' ''Time taken must be at least 1 second'' errors
             else if js_gt n (Fin 3600) then
               AList.update ''timeTaken'' ''Time taken cannot exceed 1 hour'' errors
             else errors
         | _ \<Rightarrow> AList.update ''timeTaken'' ''Time taken must be a number'' errors)
      else errors)"

text \<open>
  The loop \<open>for (const [category, stats] of Object.entries(categories))\<close>: it leaves at
  the first entry that fails (\<open>break\<close>).
\<close>

fun check_category_entries :: "(string \<times> jsval) list \<Rightarrow> errors \<Rightarrow> errors" where
  "check_category_entries [] errors = errors"
| "check_category_entries ((category, stats) # rest) errors =
     (if \<not> truthy stats \<or> typeof stats \<noteq> ''object'' then
        AList.update ''categories'' (''Invalid category stats for '' @ category) errors
      else
        (case (get_prop stats ''correct'', get_prop stats ''total'') of
           (JNum c, JNum t) \<Rightarrow>
             if js_gt c t \<or> js_lt c (Fin 0) \<or> js_lt t (Fin 1) then
               AList.update ''categories'' (''Invalid stats for category '' @ category) errors
             else check_category_entries rest errors
         | _ \<Rightarrow>
             AList.update ''categories''
               (''Category '' @ category @ '' must have numeric correct and total values'')
               errors))"

text \<open>The block \<open>// Categories validation (optional)\<close>.\<close>

definition check_categories :: "jsval \<Rightarrow> errors \<Rightarrow> errors" where
  "check_categories categories errors =
     (if categories \<noteq> JUndefined \<and> categories \<noteq> JNull then
        (if typeof categories \<noteq> ''object'' then
           AList.update ''categories'' ''Categories must be an object'' errors
         else check_category_entries (Object_entries categories) errors)
      else errors)"

text \<open>The errors the middleware has collected when it reaches its last test.\<close>

definition collect_errors :: "quiz_body \<Rightarrow> errors" where
  "collect_errors body =
     check_categories (body_categories body)
       (check_timeTaken (body_timeTaken body)
         (check_cross (body_score body) (body_totalQuestions body) (body_correctAnswers body)
           (check_correctAnswers (body_correctAnswers body) (body_totalQuestions body)
             (check_totalQuestions (body_totalQuestions body)
               (check_score (body_score body) [])))))"

text \<open>
  The middleware: \<open>res.status(400).json({status: 'error', message: 'Validation failed',
  errors})\<close> when \<open>Object.keys(errors).length > 0\<close>, \<open>next()\<close> otherwise.
\<close>

definition validateQuizSubmission :: "quiz_body \<Rightarrow> response" where
  "validateQuizSubmission body =
     (let errors = collect_errors body
      in if length (map fst errors) > 0 then Status400 errors else Next)"

text \<open>
  The structural check of each field as a property of the value alone: what the block of
  that field accepts.
\<close>

definition score_ok :: "jsval \<Rightarrow> bool" where
  "score_ok v =
     (case v of
        JNum (Fin x) \<Rightarrow> integral x \<and> 0 \<le> x \<and> x \<le> 100
      | _ \<Rightarrow> False)"

definition totalQuestions_ok :: "jsval \<Rightarrow> bool" where
  "totalQuestions_ok v =
     (case v of
        JNum (Fin x) \<Rightarrow> integral x \<and> 1 \<le> x \<and> x \<le> 50
      | _ \<Rightarrow> False)"

text \<open>
  The upper bound of \<open>correctAnswers\<close> is tested only against a \<open>totalQuestions\<close> that
  is a number.
\<close>

definition correctAnswers_ok :: "jsval \<Rightarrow> jsval \<Rightarrow> bool" where
  "correctAnswers_ok v totalQuestions =
     (case v of
        JNum (Fin x) \<Rightarrow>
          integral x \<and> 0 \<le> x \<and>
          (case totalQuestions of JNum t \<Rightarrow> \<not> js_lt t (Fin x) | _ \<Rightarrow> True)
      | _ \<Rightarrow> False)"

definition timeTaken_ok :: "jsval \<Rightarrow> bool" where
  "timeTaken_ok v =
     (case v of
        JUndefined \<Rightarrow> True
      | JNull \<Rightarrow> True
      | JNum (Fin x) \<Rightarrow> integral x \<and> 1 \<le> x \<and> x \<le> 3600
      | _ \<Rightarrow> False)"

definition category_entry_ok :: "jsval \<Rightarrow> bool" where
  "category_entry_ok stats =
     (case stats of
        JObj kvs \<Rightarrow>
          (case (map_of kvs ''correct'', map_of kvs ''total'') of
             (Some (JNum c), Some (JNum t)) \<Rightarrow>
               \<not> js_lt t c \<and> \<not> js_lt c (Fin 0) \<and> \<not> js_lt t (Fin 1)
           | _ \<Rightarrow> False)
      | _ \<Rightarrow> False)"

definition categories_ok :: "jsval \<Rightarrow> bool" where
  "categories_ok v =
     (case v of
        JUndefined \<Rightarrow> True
      | JNull \<Rightarrow> True
      | JObj kvs \<Rightarrow> list_all (\<lambda>(category, stats). category_entry_ok stats) kvs
      | JArr xs \<Rightarrow> list_all category_entry_ok xs
      | _ \<Rightarrow> False)"

text \<open>The fields of a body whose structural check fails, in the order of the blocks.\<close>

definition violated_fields :: "quiz_body \<Rightarrow> string list" where
  "violated_fields body =
     (if score_ok (body_score body) then [] else [''score'']) @
     (if totalQuestions_ok (body_totalQuestions body) then [] else [''totalQuestions'']) @
     (if correctAnswers_ok (body_correctAnswers body) (body_totalQuestions body) then []
      else [''correctAnswers'']) @
     (if timeTaken_ok (body_timeTaken body) then [] else [''timeTaken'']) @
     (if categories_ok (body_categories body) then [] else [''categories''])"

section \<open>The model \<open>QuizResult\<close>\<close>

text \<open>
  A document of the collection \<open>quiz_results\<close>, with the fields the queries below read.
  A stored \<open>score\<close> is an integer (schema validator \<open>Number.isInteger\<close>); \<open>timeTaken\<close> is
  \<open>null\<close> when the submission had none (\<open>timeTaken: timeTaken || null\<close>); \<open>completedAt\<close>
  is in milliseconds.
\<close>

record QuizResult =
  doc_score :: int
  doc_correctAnswers :: int
  doc_totalQuestions :: int
  doc_timeTaken :: "int option"
  doc_completedAt :: int

text \<open>
  The hook \<open>quizResultSchema.pre('save')\<close> on the three numbers of the document: the
  error it passes to \<open>next\<close>, if any.
\<close>

definition pre_save :: "jsnum \<Rightarrow> jsnum \<Rightarrow> jsnum \<Rightarrow> string option" where
  "pre_save this_score this_correctAnswers this_totalQuestions =
     (let calculated = Math_round (js_mul (js_div this_correctAnswers this_totalQuestions) (Fin 100))
      in if js_gt (Math_abs (js_sub this_score calculated)) (Fin 1) then
           Some ''Score does not match correct answers and total questions''
         else None)"

text \<open>
  Strings are kept as their UTF-8 bytes, so a character outside ASCII is the list of its
  bytes; two source strings are equal exactly when their byte lists are.
\<close>

text \<open>\<open>quizResultSchema.methods.getPerformanceLevel\<close>, on \<open>this.score\<close>.\<close>

definition getPerformanceLevel :: "jsnum \<Rightarrow> string" where
  "getPerformanceLevel this_score =
     (if js_ge this_score (Fin 90) then ''excellent''
      else if js_ge this_score (Fin 80) then ''good''
      else if js_ge this_score (Fin 70) then ''fair''
      else if js_ge this_score (Fin 60) then ''needs_improvement''
      else ''poor'')"

text \<open>The object literal \<open>messages\<close> of \<open>quizResultSchema.methods.getPerformanceMessage\<close>.\<close>

definition messages :: "(string \<times> string) list" where
  "messages =
     [(''excellent'',
         ''Outstanding! You'' @ [CHR 0x27] @ ''re an environmental champion! '' @
         [CHR 0xF0, CHR 0x9F, CHR 0x8C, CHR 0x9F]),
      (''good'',
         ''Excellent work! You have great environmental knowledge! '' @
         [CHR 0xF0, CHR 0x9F, CHR 0x8C, CHR 0xB1]),
      (''fair'',
         ''Good job! You'' @ [CHR 0x27] @
         ''re on the right track with environmental awareness! '' @
         [CHR 0xF0, CHR 0x9F, CHR 0x91, CHR 0x8D]),
      (''needs_improvement'',
         ''Not bad! Keep learning about environmental conservation! '' @
         [CHR 0xF0, CHR 0x9F, CHR 0x93, CHR 0x9A]),
      (''poor'',
         ''There'' @ [CHR 0x27] @
         ''s room for improvement. Check out our Learn page for more info! '' @
         [CHR 0xF0, CHR 0x9F, CHR 0x92, CHR 0xAA])]"

text \<open>\<open>quizResultSchema.methods.getPerformanceMessage\<close>: \<open>messages[level]\<close>.\<close>

definition QuizResult_getPerformanceMessage :: "jsnum \<Rightarrow> jsval" where
  "QuizResult_getPerformanceMessage this_score =
     (let level = getPerformanceLevel this_score
      in case map_of messages level of Some m \<Rightarrow> JStr m | None \<Rightarrow> JUndefined)"

text \<open>
  \<open>quizResultSchema.statics.getScoreDistribution\<close>. The stage \<open>$bucket\<close> is MongoDB's:
  each pair of adjacent boundaries is a bucket, with its lower bound inclusive and its
  upper bound exclusive, and the lower bound is its \<open>_id\<close>; a document whose value is in
  none of them goes to the bucket whose \<open>_id\<close> is \<open>default\<close>.
\<close>

datatype bucket_id = Boundary int | Default string

fun bucket_of :: "int list \<Rightarrow> string \<Rightarrow> int \<Rightarrow> bucket_id" where
  "bucket_of (lo # hi # boundaries) dflt x =
     (if lo \<le> x \<and> x < hi then Boundary lo else bucket_of (hi # boundaries) dflt x)"
| "bucket_of boundaries dflt x = Default dflt"

text \<open>\<open>boundaries: [0, 20, 40, 60, 80, 100]\<close> and \<open>default: 'other'\<close>.\<close>

definition score_bucket :: "int \<Rightarrow> bucket_id" where
  "score_bucket x = bucket_of [0, 20, 40, 60, 80, 100] ''other'' x"

text \<open>\<open>$avg\<close> of \<open>timeTaken\<close>: the mean of the values that are numbers, \<open>null\<close> without any.\<close>

definition avg_timeTaken :: "QuizResult list \<Rightarrow> rat option" where
  "avg_timeTaken docs =
     (let ts = concat (map (\<lambda>d. case doc_timeTaken d of Some t \<Rightarrow> [t] | None \<Rightarrow> []) docs)
      in if ts = [] then None else Some (of_int (sum_list ts) / of_nat (length ts)))"

record score_bucket_row =
  row_id :: bucket_id
  row_count :: nat
  row_averageTime :: "rat option"

text \<open>The result of the aggregation: one row for each bucket that has a document.\<close>

definition getScoreDistribution :: "QuizResult list \<Rightarrow> score_bucket_row list" where
  "getScoreDistribution docs =
     concat (map (\<lambda>b.
        let members = filter (\<lambda>d. score_bucket (doc_score d) = b) docs
        in if members = [] then []
           else [\<lparr>row_id = b, row_count = length members,
                  row_averageTime = avg_timeTaken members\<rparr>])
       [Boundary 0, Boundary 20, Boundary 40, Boundary 60, Boundary 80, Default ''other''])"

section \<open>The quiz controller: \<open>QuizController.getLeaderboard\<close>\<close>








section \<open>The client quiz: \<open>QuizQuestion\<close> and \<open>QuizManager\<close>\<close>

text \<open>
  An object of the class \<open>QuizQuestion\<close>. \<open>id\<close> and \<open>correctAnswer\<close> come from the
  literals of \<open>QUIZ_QUESTIONS\<close> and are integers; \<open>userAnswer\<close> is \<open>null\<close> (\<open>None\<close>) or the
  number \<open>setUserAnswer\<close> was given.
\<close>

record QuizQuestion =
  qid :: int
  category :: string
  question :: string
  options :: "string list"
  correctAnswer :: int
  explanation :: string
  difficulty :: string
  userAnswer :: "jsnum option"
  isAnswered :: bool

text \<open>The constructor \<open>new QuizQuestion(questionData)\<close>.\<close>

definition new_QuizQuestion ::
  "int \<Rightarrow> string \<Rightarrow> string \<Rightarrow> string list \<Rightarrow> int \<Rightarrow> string \<Rightarrow> string \<Rightarrow> QuizQuestion" where
  "new_QuizQuestion i c q os a e d =
     \<lparr>qid = i, category = c, question = q, options = os, correctAnswer = a,
      explanation = e, difficulty = d, userAnswer = None, isAnswered = False\<rparr>"

definition setUserAnswer :: "jsnum \<Rightarrow> QuizQuestion \<Rightarrow> QuizQuestion" where
  "setUserAnswer answerIndex this = this\<lparr>userAnswer := Some answerIndex, isAnswered := True\<rparr>"

text \<open>\<open>this.isAnswered && this.userAnswer === this.correctAnswer\<close>.\<close>

definition isCorrect :: "QuizQuestion \<Rightarrow> bool" where
  "isCorrect this =
     (isAnswered this \<and>
      (case userAnswer this of
         Some a \<Rightarrow> js_strict_eq a (Fin (of_int (correctAnswer this)))
       | None \<Rightarrow> False))"

text \<open>\<open>xs[n]\<close> for an array of strings and a number: \<open>undefined\<close> outside the array.\<close>

fun array_index :: "string list \<Rightarrow> jsnum \<Rightarrow> jsval" where
  "array_index xs (Fin x) =
     (if integral x \<and> 0 \<le> x \<and> x < of_nat (length xs) then JStr (xs ! nat \<lfloor>x\<rfloor>)
      else JUndefined)"
| "array_index xs _ = JUndefined"

definition getCorrectAnswerText :: "QuizQuestion \<Rightarrow> jsval" where
  "getCorrectAnswerText this = array_index (options this) (Fin (of_int (correctAnswer this)))"

definition getUserAnswerText :: "QuizQuestion \<Rightarrow> jsval" where
  "getUserAnswerText this =
     (if isAnswered this then
        (case userAnswer this of Some a \<Rightarrow> array_index (options this) a | None \<Rightarrow> JUndefined)
      else JNull)"

text \<open>
  The state of a \<open>QuizManager\<close> that the quiz logic reads and writes; \<open>startTime\<close> and
  \<open>endTime\<close> are \<open>null\<close> or the time value of a \<open>Date\<close> in milliseconds.
\<close>

record QuizManager =
  questions :: "QuizQuestion list"
  currentQuestionIndex :: nat
  isQuizStarted :: bool
  isQuizCompleted :: bool
  startTime :: "jsnum option"
  endTime :: "jsnum option"

text \<open>
  \<open>handleAnswerChange\<close>, from the parsed \<open>questionId\<close> and \<open>answerIndex\<close>:
  \<open>this.questions.find(q => q.id === questionId)\<close> is the first question with that
  id, and \<open>setUserAnswer\<close> changes that object where it is.
\<close>

fun answer_first :: "jsnum \<Rightarrow> jsnum \<Rightarrow> QuizQuestion list \<Rightarrow> QuizQuestion list" where
  "answer_first questionId answerIndex [] = []"
| "answer_first questionId answerIndex (q # qs) =
     (if js_strict_eq (Fin (of_int (qid q))) questionId then setUserAnswer answerIndex q # qs
      else q # answer_first questionId answerIndex qs)"

definition handleAnswerChange :: "jsnum \<Rightarrow> jsnum \<Rightarrow> QuizManager \<Rightarrow> QuizManager" where
  "handleAnswerChange questionId answerIndex this =
     (case find (\<lambda>q. js_strict_eq (Fin (of_int (qid q))) questionId) (questions this) of
        Some _ \<Rightarrow> this\<lparr>questions := answer_first questionId answerIndex (questions this)\<rparr>
      | None \<Rightarrow> this)"

text \<open>
  An entry \<open>{ correct, total }\<close> of \<open>categoryScores\<close>, and an element of
  \<open>detailedResults\<close>. The counters are natural numbers: they count elements of an array.
\<close>

record category_score =
  cs_correct :: nat
  cs_total :: nat

record detailed_result =
  dr_questionNumber :: nat
  dr_question :: string
  dr_category :: string
  dr_userAnswer :: jsval
  dr_correctAnswer :: jsval
  dr_isCorrect :: bool
  dr_explanation :: string

record calc_state =
  st_correctAnswers :: nat
  st_categoryScores :: "(string \<times> category_score) list"
  st_detailedResults :: "detailed_result list"

text \<open>
  The lines \<open>// Category scoring\<close> for one question. \<open>categoryScores\<close> lists its own
  properties in insertion order; the names of the categories are taken not to be names
  of properties that every object inherits, so that \<open>!categoryScores[c]\<close> tests whether
  \<open>c\<close> has an entry.
\<close>

definition category_scoring :: "string \<Rightarrow> bool \<Rightarrow> (string \<times> category_score) list \<Rightarrow> (string \<times> category_score) list" where
  "category_scoring c is_correct categoryScores =
     (let cs1 = (if map_of categoryScores c = None
                 then AList.update c \<lparr>cs_correct = 0, cs_total = 0\<rparr> categoryScores
                 else categoryScores);
          cs2 = AList.map_entry c (\<lambda>e. e\<lparr>cs_total := cs_total e + 1\<rparr>) cs1
      in if is_correct then AList.map_entry c (\<lambda>e. e\<lparr>cs_correct := cs_correct e + 1\<rparr>) cs2
         else cs2)"

text \<open>The body of \<open>this.questions.forEach((question, index) => ...)\<close>.\<close>

definition score_question :: "QuizQuestion \<Rightarrow> nat \<Rightarrow> calc_state \<Rightarrow> calc_state" where
  "score_question q index st =
     (let is_correct = isCorrect q
      in \<lparr>st_correctAnswers =
            (if is_correct then st_correctAnswers st + 1 else st_correctAnswers st),
          st_categoryScores = category_scoring (category q) is_correct (st_categoryScores st),
          st_detailedResults = st_detailedResults st @
            [\<lparr>dr_questionNumber = index + 1,
              dr_question = question q,
              dr_category = category q,
              dr_userAnswer = getUserAnswerText q,
              dr_correctAnswer = getCorrectAnswerText q,
              dr_isCorrect = is_correct,
              dr_explanation = explanation q\<rparr>]\<rparr>)"

fun score_questions :: "QuizQuestion list \<Rightarrow> nat \<Rightarrow> calc_state \<Rightarrow> calc_state" where
  "score_questions [] index st = st"
| "score_questions (q # qs) index st = score_questions qs (index + 1) (score_question q index st)"

record quiz_results =
  res_score :: jsnum
  res_correctAnswers :: nat
  res_totalQuestions :: nat
  res_timeTaken :: jsnum
  res_categoryScores :: "(string \<times> category_score) list"
  res_detailedResults :: "detailed_result list"
  res_completedAt :: jsnum

text \<open>
  \<open>QuizManager.calculateResults\<close>, with the value \<open>now\<close> of \<open>new Date()\<close>: the manager
  after the call and the object returned. The method has no \<open>throw\<close> and calls nothing
  that throws: every call returns. In \<open>this.endTime - this.startTime\<close> a \<open>null\<close> start
  counts as 0.
\<close>

definition calculateResults :: "jsnum \<Rightarrow> QuizManager \<Rightarrow> QuizManager \<times> quiz_results" where
  "calculateResults now this =
     (let timeTaken =
            Math_round (js_div (js_sub now (case startTime this of Some t \<Rightarrow> t | None \<Rightarrow> Fin 0))
                               (Fin 1000));
          st = score_questions (questions this) 0
                 \<lparr>st_correctAnswers = 0, st_categoryScores = [], st_detailedResults = []\<rparr>;
          totalQuestions = length (questions this);
          score = Math_round (js_mul (js_div (Fin (of_nat (st_correctAnswers st)))
                                             (Fin (of_nat totalQuestions)))
                                     (Fin 100))
      in (this\<lparr>endTime := Some now\<rparr>,
          \<lparr>res_score = score,
           res_correctAnswers = st_correctAnswers st,
           res_totalQuestions = totalQuestions,
           res_timeTaken = timeTaken,
           res_categoryScores = st_categoryScores st,
           res_detailedResults = st_detailedResults st,
           res_completedAt = now\<rparr>))"

text \<open>\<open>QuizManager.getPerformanceMessage(score)\<close>.\<close>

definition QuizManager_getPerformanceMessage :: "jsnum \<Rightarrow> string" where
  "QuizManager_getPerformanceMessage score =
     (if js_ge score (Fin 90) then
        ''Outstanding! You'' @ [CHR 0x27] @ ''re an environmental champion! '' @
        [CHR 0xF0, CHR 0x9F, CHR 0x8C, CHR 0x9F]
      else if js_ge score (Fin 80) then
        ''Excellent work! You have great environmental knowledge! '' @
        [CHR 0xF0, CHR 0x9F, CHR 0x8C, CHR 0xB1]
      else if js_ge score (Fin 70) then
        ''Good job! You'' @ [CHR 0x27] @
        ''re on the right track with environmental awareness! '' @
        [CHR 0xF0, CHR 0x9F, CHR 0x91, CHR 0x8D]
      else if js_ge score (Fin 60) then
        ''Not bad! Keep learning about environmental conservation! '' @
        [CHR 0xF0, CHR 0x9F, CHR 0x93, CHR 0x9A]
      else
        ''There'' @ [CHR 0x27] @
        ''s room for improvement. Check out our Learn page for more info! '' @
        [CHR 0xF0, CHR 0x9F, CHR 0x92, CHR 0xAA])"

section \<open>The operations as the specification words them\<close>

text \<open>
  The specification's \<open>selectAnswer\<close>: it fails with \<open>OutOfRangeError\<close> when the index
  is not a valid index of the question's options, and otherwise records the answer.
\<close>

datatype spec_error = OutOfRangeError | InvalidBankError

definition valid_option_index :: "QuizQuestion \<Rightarrow> jsnum \<Rightarrow> bool" where
  "valid_option_index q optionIndex =
     (case optionIndex of
        Fin x \<Rightarrow> integral x \<and> 0 \<le> x \<and> x < of_nat (length (options q))
      | _ \<Rightarrow> False)"

definition spec_selectAnswer :: "jsnum \<Rightarrow> QuizQuestion \<Rightarrow> spec_error + QuizQuestion" where
  "spec_selectAnswer optionIndex q =
     (if valid_option_index q optionIndex
      then Inr (q\<lparr>userAnswer := Some optionIndex, isAnswered := True\<rparr>)
      else Inl OutOfRangeError)"

text \<open>
  The specification's Score Calculator on the edge case of an empty item list: it fails
  with \<open>InvalidBankError\<close>, and otherwise gives the result.
\<close>

definition spec_scoreCalculator :: "jsnum \<Rightarrow> QuizManager \<Rightarrow> spec_error + quiz_results" where
  "spec_scoreCalculator now session =
     (if questions session = [] then Inl InvalidBankError
      else Inr (snd (calculateResults now session)))"

section \<open>Reference values for the properties\<close>

text \<open>
  \<open>round(c / t * 100)\<close> in exact arithmetic, a half rounded up.
\<close>

definition round_half_up_percent :: "int \<Rightarrow> int \<Rightarrow> int" where
  "round_half_up_percent c t = \<lfloor>(of_int c / of_int t * 100 + 1 / 2 :: rat)\<rfloor>"

text \<open>
  The value of \<open>Math.round((c / t) * 100)\<close> in binary64 for \<open>0 \<le> c \<le> t \<le> 50\<close>: the
  exact one, except that \<open>(23 / 40) * 100\<close> is \<open>57.49999999999999\<close> in binary64 and rounds
  to 57.
\<close>

definition binary64_percent :: "int \<Rightarrow> int \<Rightarrow> int" where
  "binary64_percent c t = (if c = 23 \<and> t = 40 then 57 else round_half_up_percent c t)"

text \<open>
  The pairs \<open>(t, c)\<close> with \<open>0 \<le> c \<le> t \<le> 50\<close> for which \<open>c / t * 100\<close> is exactly half
  way between two integers.
\<close>

definition half_way_pairs :: "(int \<times> int) list" where
  "half_way_pairs = [(8, 1), (8, 3), (8, 5), (8, 7), (16, 2), (16, 6), (16, 10), (16, 14), (24, 3), (24, 9), (24, 15), (24, 21), (32, 4), (32, 12), (32, 20), (32, 28), (40, 1), (40, 3), (40, 5), (40, 7), (40, 9), (40, 11), (40, 13), (40, 15), (40, 17), (40, 19), (40, 21), (40, 23), (40, 25), (40, 27), (40, 29), (40, 31), (40, 33), (40, 35), (40, 37), (40, 39), (48, 6), (48, 18), (48, 30), (48, 42)]"

text \<open>The five ranges of a score that the thresholds 90, 80, 70 and 60 separate.\<close>

definition performance_band :: "int \<Rightarrow> nat" where
  "performance_band s =
     (if 90 \<le> s then 4 else if 80 \<le> s then 3 else if 70 \<le> s then 2 else if 60 \<le> s then 1
      else 0)"

section \<open>Properties of the number model\<close>

lemma bitlen_bounds:
  "0 < n \<Longrightarrow> 1 \<le> bitlen n \<and> 2 ^ nat (bitlen n - 1) \<le> n \<and> n < 2 ^ nat (bitlen n)"
proof (induction n rule: bitlen.induct)
  case (1 n)
  show ?case
  proof (cases "n = 1")
    case True
    have "bitlen 1 = 1" by (simp add: bitlen.simps)
    with True show ?thesis by simp
  next
    case False
    with "1.prems" have m: "0 < n div 2" by simp
    from "1.prems" have nn: "\<not> n \<le> 0" by simp
    from "1.IH" [OF nn m] have b1: "1 \<le> bitlen (n div 2)"
      and lo: "2 ^ nat (bitlen (n div 2) - 1) \<le> n div 2"
      and hi: "n div 2 < 2 ^ nat (bitlen (n div 2))" by auto
    have eq: "bitlen n = 1 + bitlen (n div 2)"
      using nn by (subst bitlen.simps) simp
    have s: "nat (bitlen (n div 2)) = Suc (nat (bitlen (n div 2) - 1))"
      using b1 by simp
    have "2 ^ nat (bitlen n - 1) = (2::int) * 2 ^ nat (bitlen (n div 2) - 1)"
      using eq s by simp
    also have "\<dots> \<le> 2 * (n div 2)" using lo by simp
    also have "\<dots> \<le> n" by simp
    finally have A: "2 ^ nat (bitlen n - 1) \<le> n" .
    have "n < 2 * (n div 2 + 1)" by simp
    also have "\<dots> \<le> 2 * 2 ^ nat (bitlen (n div 2))" using hi by simp
    also have "\<dots> = 2 ^ nat (bitlen n)" using eq b1 by (simp add: nat_add_distrib)
    finally have B: "n < 2 ^ nat (bitlen n)" .
    from A B eq b1 show ?thesis by simp
  qed
qed

lemma ilog2_ge1: assumes "1 \<le> a" shows "0 \<le> ilog2 a" and "2 powi (ilog2 a) \<le> a"
proof -
  from assms have p: "0 < \<lfloor>a\<rfloor>" by simp
  from bitlen_bounds [OF p] have b1: "1 \<le> bitlen \<lfloor>a\<rfloor>"
    and lo: "2 ^ nat (bitlen \<lfloor>a\<rfloor> - 1) \<le> \<lfloor>a\<rfloor>" by auto
  have e: "ilog2 a = bitlen \<lfloor>a\<rfloor> - 1" using assms by (simp add: ilog2_def)
  show "0 \<le> ilog2 a" using e b1 by simp
  have "(2::rat) powi (ilog2 a) = 2 ^ nat (bitlen \<lfloor>a\<rfloor> - 1)"
    using e b1 by (simp add: power_int_def)
  also have "\<dots> = of_int (2 ^ nat (bitlen \<lfloor>a\<rfloor> - 1))" by simp
  also have "\<dots> \<le> of_int \<lfloor>a\<rfloor>" using lo by (simp only: of_int_le_iff)
  also have "\<dots> \<le> a" by simp
  finally show "2 powi (ilog2 a) \<le> a" .
qed

lemma ilog2_lt1: assumes "0 < a" "a < 1" shows "2 powi (ilog2 a) \<le> a"
proof -
  define m where "m = \<lceil>1 / a\<rceil> - 1"
  from assms have "1 < 1 / a" by simp
  then have "1 < \<lceil>1 / a\<rceil>" by (simp add: less_ceiling_iff)
  then have p: "0 < m" by (simp add: m_def)
  from bitlen_bounds [OF p] have b1: "1 \<le> bitlen m" and hi: "m < 2 ^ nat (bitlen m)" by auto
  have e: "ilog2 a = - bitlen m" using assms by (simp add: ilog2_def m_def)
  have "1 / a \<le> of_int \<lceil>1 / a\<rceil>" by simp
  also have "\<dots> = of_int (m + 1)" by (simp add: m_def)
  also have "\<dots> \<le> of_int (2 ^ nat (bitlen m))"
  proof -
    from hi have "m + 1 \<le> 2 ^ nat (bitlen m)" by simp
    then show ?thesis by (simp only: of_int_le_iff)
  qed
  finally have le: "1 / a \<le> 2 ^ nat (bitlen m)" by simp
  have pos: "(0::rat) < 2 ^ nat (bitlen m)" by simp
  from le assms(1) pos have "1 / 2 ^ nat (bitlen m) \<le> a"
    by (simp add: field_simps)
  moreover have "(2::rat) powi (ilog2 a) = 1 / 2 ^ nat (bitlen m)"
    using e b1 by (simp add: power_int_def field_simps)
  ultimately show ?thesis by simp
qed

lemma ilog2_lower: "0 < a \<Longrightarrow> 2 powi (ilog2 a) \<le> a"
  using ilog2_ge1(2) ilog2_lt1 by (cases "1 \<le> a") auto

lemma round_half_even_cases:
  "round_half_even y = \<lfloor>y\<rfloor> \<and> y - of_int \<lfloor>y\<rfloor> \<le> 1 / 2 \<or>
   round_half_even y = \<lfloor>y\<rfloor> + 1 \<and> 1 / 2 \<le> y - of_int \<lfloor>y\<rfloor>"
  unfolding round_half_even_def Let_def by (simp; linarith)

lemma round_half_even_bounds:
  "of_int (round_half_even y) \<le> y + 1 / 2" "y - 1 / 2 \<le> of_int (round_half_even y)"
proof -
  have f: "of_int \<lfloor>y\<rfloor> \<le> y" "y < of_int \<lfloor>y\<rfloor> + 1" by linarith+
  from round_half_even_cases [of y] f show "of_int (round_half_even y) \<le> y + 1 / 2"
    by (elim disjE conjE) (simp; linarith)+
  from round_half_even_cases [of y] f show "y - 1 / 2 \<le> of_int (round_half_even y)"
    by (elim disjE conjE) (simp; linarith)+
qed

lemma round_half_even_of_int: "round_half_even (of_int n) = n"
  by (simp add: round_half_even_def)

lemma round_half_even_nonneg: "0 \<le> y \<Longrightarrow> 0 \<le> round_half_even y"
  by (auto simp: round_half_even_def Let_def)


lemma fl_of_int:
  assumes "\<bar>n\<bar> < 2 ^ 53"
  shows "fl (of_int n) = Fin (of_int n)"
proof (cases "n = 0")
  case True
  then show ?thesis by (simp add: fl_def)
next
  case False
  define a :: rat where "a = \<bar>of_int n\<bar>"
  define k where "k = nat (52 - ilog2 a)"
  have a_int: "a = of_int \<bar>n\<bar>" by (simp add: a_def)
  from False have "1 \<le> \<bar>n\<bar>" by simp
  then have a1: "1 \<le> a" unfolding a_int by (simp only: of_int_1_le_iff)
  have e0: "0 \<le> ilog2 a" and lo: "2 powi (ilog2 a) \<le> a" using ilog2_ge1 [OF a1] by auto
  have a_lt: "a < 2 ^ 53"
  proof -
    from assms have "of_int \<bar>n\<bar> < (of_int (2 ^ 53) :: rat)" by (simp only: of_int_less_iff)
    then show ?thesis by (simp add: a_int)
  qed
  have e52: "ilog2 a \<le> 52"
  proof (rule ccontr)
    assume "\<not> ilog2 a \<le> 52"
    then have "53 \<le> ilog2 a" by simp
    then have "(2::rat) powi 53 \<le> 2 powi (ilog2 a)" by (intro power_int_increasing) simp_all
    also note lo
    finally show False using a_lt by (simp add: power_int_def)
  qed
  have mx: "max (ilog2 a) (- 1022) = ilog2 a" using e0 by simp
  have q: "(2::rat) powi (ilog2 a - 52) = 1 / 2 ^ k"
    using e52 by (simp add: power_int_def k_def field_simps)
  have aq: "a / (2 powi (ilog2 a - 52)) = of_int (\<bar>n\<bar> * 2 ^ k)"
    unfolding q by (simp add: a_int)
  have r: "of_int (round_half_even (a / (2 powi (ilog2 a - 52)))) * (2::rat) powi (ilog2 a - 52) = a"
  proof -
    have "round_half_even (a / (2 powi (ilog2 a - 52))) = \<bar>n\<bar> * 2 ^ k"
      by (simp only: aq round_half_even_of_int)
    then show ?thesis unfolding q by (simp add: a_int)
  qed
  have big: "\<not> 2 powi 1024 \<le> a"
  proof -
    have "a < 2 ^ 53" by (rule a_lt)
    also have "\<dots> \<le> (2::rat) ^ 1024" by (rule power_increasing) simp_all
    finally show ?thesis by (simp add: power_int_def)
  qed
  have x0: "(of_int n :: rat) \<noteq> 0" using False by simp
  have "fl (of_int n) = Fin (if 0 < (of_int n :: rat) then a else - a)"
    unfolding fl_def Let_def a_def [symmetric] mx r using x0 big by simp
  also have "(if 0 < (of_int n :: rat) then a else - a) = of_int n"
    by (simp add: a_def)
  finally show ?thesis .
qed

lemma fl_bounded:
  assumes "\<bar>x\<bar> \<le> 2 ^ 1000"
  shows "\<exists>y. fl x = Fin y \<and> \<bar>y\<bar> \<le> 2 * \<bar>x\<bar> + 1 \<and> (0 \<le> x \<longrightarrow> 0 \<le> y)"
proof (cases "x = 0")
  case True
  then show ?thesis by (simp add: fl_def)
next
  case False
  define a where "a = \<bar>x\<bar>"
  define e where "e = max (ilog2 a) (- 1022)"
  define q :: rat where "q = 2 powi (e - 52)"
  define r where "r = of_int (round_half_even (a / q)) * q"
  from False have a0: "0 < a" by (simp add: a_def)
  have q0: "0 < q" by (simp add: q_def)
  have qa: "q \<le> a + 1"
  proof (cases "- 1022 \<le> ilog2 a")
    case True
    then have "e = ilog2 a" by (simp add: e_def)
    then have "q = 2 powi (ilog2 a) * 2 powi (- 52)"
      by (simp add: q_def power_int_diff power_int_minus field_simps)
    also have "\<dots> \<le> 2 powi (ilog2 a) * 1"
      by (intro mult_left_mono) (simp_all add: power_int_def power_le_one)
    also have "\<dots> \<le> a" using ilog2_lower [OF a0] by simp
    finally show ?thesis by simp
  next
    case False
    then have "e = - 1022" by (simp add: e_def)
    then have "q \<le> 1" by (simp add: q_def power_int_def field_simps)
    with a0 show ?thesis by simp
  qed
  have "r \<le> (a / q + 1 / 2) * q"
    unfolding r_def using round_half_even_bounds(1) [of "a / q"] q0
    by (intro mult_right_mono) simp_all
  also have "\<dots> = a + q / 2" using q0 by (simp add: field_simps)
  also have "\<dots> \<le> 2 * a + 1" using qa a0 by simp
  finally have r_le: "r \<le> 2 * a + 1" .
  have r0: "0 \<le> r"
    unfolding r_def using round_half_even_nonneg [of "a / q"] a0 q0 by simp
  have big: "\<not> 2 powi 1024 \<le> r"
  proof -
    have "r \<le> 2 * 2 ^ 1000 + 1" using r_le assms by (simp add: a_def)
    also have "\<dots> < (2::rat) ^ 1024" by simp
    finally show ?thesis by (simp add: power_int_def)
  qed
  have "fl x = Fin (if 0 < x then r else - r)"
    using False big unfolding fl_def Let_def a_def [symmetric] e_def [symmetric]
      q_def [symmetric] r_def [symmetric] by simp
  moreover have "\<bar>if 0 < x then r else - r\<bar> \<le> 2 * \<bar>x\<bar> + 1"
    using r_le r0 unfolding a_def by (cases "0 < x") simp_all
  moreover have "0 \<le> x \<longrightarrow> 0 \<le> (if 0 < x then r else - r)"
    using r0 False by simp
  ultimately show ?thesis by blast
qed


lemma bitlen_nonpos: "n \<le> 0 \<Longrightarrow> bitlen n = 0"
  by (simp add: bitlen.simps)

lemma bitlen_pos: "0 < n \<Longrightarrow> bitlen n = 1 + bitlen (n div 2)"
  by (simp add: bitlen.simps)

lemma floor_rat_numeral_div: "\<lfloor>numeral a / numeral b :: rat\<rfloor> = numeral a div numeral b"
  by (metis floor_divide_of_int_eq of_int_numeral)

lemma ceiling_rat_numeral_div: "\<lceil>numeral a / numeral b :: rat\<rceil> = - ((- numeral a) div numeral b)"
  by (metis ceiling_def floor_divide_of_int_eq minus_divide_left of_int_minus of_int_numeral)

lemma floor_rat_one_div: "\<lfloor>1 / numeral b :: rat\<rfloor> = 1 div numeral b"
  by (metis floor_divide_of_int_eq of_int_1 of_int_numeral)

section \<open>Properties of the validation middleware\<close>

lemma calculatedScore_finite:
  assumes "0 \<le> c" "c \<le> t" "0 < t"
  shows "\<exists>k. calculatedScore (Fin c) (Fin t) = Fin (of_int k) \<and> 0 \<le> k \<and> k \<le> 601"
proof -
  have x: "0 \<le> c / t" "c / t \<le> 1" using assms by simp_all
  then have "\<bar>c / t\<bar> \<le> 2 ^ 1000"
    by (simp add: order_trans [OF _ one_le_power])
  from fl_bounded [OF this] x obtain y1
    where y1: "fl (c / t) = Fin y1" "0 \<le> y1" "y1 \<le> 3" by auto
  have "\<bar>y1 * 100\<bar> \<le> 2 ^ 1000"
  proof -
    have "\<bar>y1 * 100\<bar> \<le> 2 ^ 9" using y1 by simp
    also have "\<dots> \<le> (2::rat) ^ 1000" by (rule power_increasing) simp_all
    finally show ?thesis .
  qed
  from fl_bounded [OF this] y1 obtain y2
    where y2: "fl (y1 * 100) = Fin y2" "0 \<le> y2" "y2 \<le> 601" by auto
  have "calculatedScore (Fin c) (Fin t) = Fin (of_int \<lfloor>y2 + 1 / 2\<rfloor>)"
    using assms y1 y2 by (simp add: calculatedScore_def)
  moreover have "0 \<le> \<lfloor>y2 + 1 / 2\<rfloor>" using y2 by simp
  moreover have "\<lfloor>y2 + 1 / 2\<rfloor> \<le> 601" using y2 by (simp add: floor_le_iff)
  ultimately show ?thesis by blast
qed

lemma score_mismatch_int:
  assumes "\<bar>s - k\<bar> < 2 ^ 53"
  shows "js_gt (Math_abs (js_sub (Fin (of_int s)) (Fin (of_int k)))) (Fin 1) \<longleftrightarrow> 1 < \<bar>s - k\<bar>"
proof -
  have "js_sub (Fin (of_int s)) (Fin (of_int k)) = fl (of_int (s - k))" by simp
  also have "\<dots> = Fin (of_int (s - k))" by (rule fl_of_int [OF assms])
  finally have "Math_abs (js_sub (Fin (of_int s)) (Fin (of_int k))) = Fin (of_int \<bar>s - k\<bar>)"
    by simp
  moreover have "(1 < (of_int \<bar>s - k\<bar> :: rat)) = (1 < \<bar>s - k\<bar>)"
    by (simp only: of_int_1_less_iff)
  ultimately show ?thesis by (simp add: js_gt_def del: of_int_abs of_int_diff)
qed

lemma keys_update: "fst ` set (AList.update k v al) = insert k (fst ` set al)"
  by (simp add: dom_update)

lemma jsval_shape [case_names Fin NaN PInf NInf Undefined Null Bool Str Arr Obj]:
  obtains x where "v = JNum (Fin x)" | "v = JNum NaN" | "v = JNum PInf" | "v = JNum NInf"
    | "v = JUndefined" | "v = JNull" | b where "v = JBool b" | s where "v = JStr s"
    | xs where "v = JArr xs" | kvs where "v = JObj kvs"
proof (cases v)
  case (JNum n)
  then show ?thesis using that by (cases n) auto
qed (use that in auto)

lemma check_score_ok: "score_ok v \<Longrightarrow> check_score v errs = errs"
  by (cases v rule: jsval_shape) (auto simp: score_ok_def check_score_def js_gt_def)

lemma check_score_bad: "\<not> score_ok v \<Longrightarrow> ''score'' \<in> fst ` set (check_score v errs)"
  by (cases v rule: jsval_shape) (auto simp: score_ok_def check_score_def js_gt_def keys_update)

lemma check_totalQuestions_ok: "totalQuestions_ok v \<Longrightarrow> check_totalQuestions v errs = errs"
  by (cases v rule: jsval_shape)
    (auto simp: totalQuestions_ok_def check_totalQuestions_def js_gt_def)

lemma check_totalQuestions_bad:
  "\<not> totalQuestions_ok v \<Longrightarrow> ''totalQuestions'' \<in> fst ` set (check_totalQuestions v errs)"
  by (cases v rule: jsval_shape)
    (auto simp: totalQuestions_ok_def check_totalQuestions_def js_gt_def keys_update)

lemma check_correctAnswers_ok:
  "correctAnswers_ok v t \<Longrightarrow> check_correctAnswers v t errs = errs"
  by (cases v rule: jsval_shape; cases t)
    (auto simp: correctAnswers_ok_def check_correctAnswers_def js_gt_def)

lemma check_correctAnswers_bad:
  "\<not> correctAnswers_ok v t \<Longrightarrow> ''correctAnswers'' \<in> fst ` set (check_correctAnswers v t errs)"
  by (cases v rule: jsval_shape; cases t)
    (auto simp: correctAnswers_ok_def check_correctAnswers_def js_gt_def keys_update)

lemma check_timeTaken_ok: "timeTaken_ok v \<Longrightarrow> check_timeTaken v errs = errs"
  by (cases v rule: jsval_shape) (auto simp: timeTaken_ok_def check_timeTaken_def js_gt_def)

lemma check_timeTaken_bad:
  "\<not> timeTaken_ok v \<Longrightarrow> ''timeTaken'' \<in> fst ` set (check_timeTaken v errs)"
  by (cases v rule: jsval_shape)
    (auto simp: timeTaken_ok_def check_timeTaken_def js_gt_def keys_update)

lemma check_category_entries_ok:
  "list_all category_entry_ok (map snd es) \<Longrightarrow> check_category_entries es errs = errs"
  by (induction es errs rule: check_category_entries.induct)
    (auto simp: category_entry_ok_def js_gt_def split: jsval.splits option.splits)

lemma check_category_entries_bad:
  "\<not> list_all category_entry_ok (map snd es) \<Longrightarrow>
   ''categories'' \<in> fst ` set (check_category_entries es errs)"
  by (induction es errs rule: check_category_entries.induct)
    (auto simp: category_entry_ok_def js_gt_def keys_update split: jsval.splits option.splits)

lemma snd_entries_array: "map snd (zip (map f [0..<length xs]) xs) = xs"
  by (simp add: map_snd_zip)

lemma list_all_entries: "list_all (\<lambda>(category, stats). P stats) kvs = list_all P (map snd kvs)"
  by (induction kvs) auto

lemma check_categories_ok: "categories_ok v \<Longrightarrow> check_categories v errs = errs"
  by (cases v)
    (simp_all add: categories_ok_def check_categories_def check_category_entries_ok
      snd_entries_array list_all_entries)

lemma check_categories_bad:
  "\<not> categories_ok v \<Longrightarrow> ''categories'' \<in> fst ` set (check_categories v errs)"
  by (cases v)
    (simp_all add: categories_ok_def check_categories_def check_category_entries_bad
      snd_entries_array list_all_entries keys_update)

lemma integral_of_int: "integral (of_int n)"
  by (simp add: integral_def)

lemma integral_D: "integral x \<Longrightarrow> x = of_int \<lfloor>x\<rfloor>"
  unfolding integral_def by (erule sym)

lemma score_ok_D:
  assumes "score_ok v"
  obtains s where "v = JNum (Fin (of_int s))" "0 \<le> s" "s \<le> 100"
proof (cases v rule: jsval_shape)
  case (Fin x)
  with assms have i: "integral x" and r: "0 \<le> x" "x \<le> 100" by (simp_all add: score_ok_def)
  from r have "0 \<le> \<lfloor>x\<rfloor>" "\<lfloor>x\<rfloor> \<le> 100" by (simp_all add: floor_le_iff)
  with Fin integral_D [OF i] that [of "\<lfloor>x\<rfloor>"] show ?thesis by simp
qed (use assms in \<open>simp_all add: score_ok_def\<close>)

lemma totalQuestions_ok_D:
  assumes "totalQuestions_ok v"
  obtains t where "v = JNum (Fin (of_int t))" "1 \<le> t" "t \<le> 50"
proof (cases v rule: jsval_shape)
  case (Fin x)
  with assms have i: "integral x" and r: "1 \<le> x" "x \<le> 50"
    by (simp_all add: totalQuestions_ok_def)
  from r have "1 \<le> \<lfloor>x\<rfloor>" "\<lfloor>x\<rfloor> \<le> 50" by (simp_all add: floor_le_iff)
  with Fin integral_D [OF i] that [of "\<lfloor>x\<rfloor>"] show ?thesis by simp
qed (use assms in \<open>simp_all add: totalQuestions_ok_def\<close>)

lemma correctAnswers_ok_D:
  assumes "correctAnswers_ok v (JNum (Fin (of_int t)))"
  obtains c where "v = JNum (Fin (of_int c))" "0 \<le> c" "c \<le> t"
proof (cases v rule: jsval_shape)
  case (Fin x)
  with assms have i: "integral x" and r: "0 \<le> x" "x \<le> of_int t"
    by (simp_all add: correctAnswers_ok_def)
  from r have "0 \<le> \<lfloor>x\<rfloor>" "\<lfloor>x\<rfloor> \<le> t" by (simp_all add: floor_le_iff)
  with Fin integral_D [OF i] that [of "\<lfloor>x\<rfloor>"] show ?thesis by simp
qed (use assms in \<open>simp_all add: correctAnswers_ok_def\<close>)

lemma violated_fields_Nil:
  "violated_fields body = [] \<longleftrightarrow>
     score_ok (body_score body) \<and> totalQuestions_ok (body_totalQuestions body) \<and>
     correctAnswers_ok (body_correctAnswers body) (body_totalQuestions body) \<and>
     timeTaken_ok (body_timeTaken body) \<and> categories_ok (body_categories body)"
  by (simp add: violated_fields_def)

lemma collect_errors_ok:
  assumes "violated_fields body = []"
  shows "collect_errors body =
     check_cross (body_score body) (body_totalQuestions body) (body_correctAnswers body) []"
  using assms unfolding violated_fields_Nil collect_errors_def
  by (simp add: check_score_ok check_totalQuestions_ok check_correctAnswers_ok
      check_timeTaken_ok check_categories_ok)

lemma check_cross_int:
  assumes "calculatedScore (Fin (of_int c)) (Fin (of_int t)) = Fin (of_int k)"
    and "\<bar>s - k\<bar> < 2 ^ 53"
  shows "check_cross (JNum (Fin (of_int s))) (JNum (Fin (of_int t))) (JNum (Fin (of_int c))) [] = []
     \<longleftrightarrow> \<bar>s - k\<bar> \<le> 1"
  using score_mismatch_int [OF assms(2)] assms(1) by (auto simp: check_cross_def)

lemma pre_save_int:
  assumes "calculatedScore (Fin (of_int c)) (Fin (of_int t)) = Fin (of_int k)"
    and "\<bar>s - k\<bar> < 2 ^ 53"
  shows "pre_save (Fin (of_int s)) (Fin (of_int c)) (Fin (of_int t)) = None \<longleftrightarrow> \<bar>s - k\<bar> \<le> 1"
  using score_mismatch_int [OF assms(2)] assms(1)
  by (auto simp: pre_save_def calculatedScore_def Let_def)

lemma validate_Next: "validateQuizSubmission body = Next \<longleftrightarrow> collect_errors body = []"
  by (simp add: validateQuizSubmission_def Let_def)

lemma accept_iff:
  assumes "score_ok (body_score body)" "totalQuestions_ok (body_totalQuestions body)"
    "correctAnswers_ok (body_correctAnswers body) (body_totalQuestions body)"
    "timeTaken_ok (body_timeTaken body)" "categories_ok (body_categories body)"
  obtains s t c k where
     "body_score body = JNum (Fin (of_int s))"
     "body_totalQuestions body = JNum (Fin (of_int t))"
     "body_correctAnswers body = JNum (Fin (of_int c))"
     "calculatedScore (Fin (of_int c)) (Fin (of_int t)) = Fin (of_int k)"
     "\<bar>s - k\<bar> < 2 ^ 53"
     "validateQuizSubmission body = Next \<longleftrightarrow> \<bar>s - k\<bar> \<le> 1"
proof -
  have vf: "violated_fields body = []" using assms by (simp add: violated_fields_Nil)
  from assms(1) obtain s where s: "body_score body = JNum (Fin (of_int s))" "0 \<le> s" "s \<le> 100"
    by (rule score_ok_D)
  from assms(2) obtain t where t: "body_totalQuestions body = JNum (Fin (of_int t))" "1 \<le> t" "t \<le> 50"
    by (rule totalQuestions_ok_D)
  from assms(3) obtain c where c: "body_correctAnswers body = JNum (Fin (of_int c))" "0 \<le> c" "c \<le> t"
    unfolding t(1) by (rule correctAnswers_ok_D)
  have "\<exists>k. calculatedScore (Fin (of_int c)) (Fin (of_int t)) = Fin (of_int k) \<and> 0 \<le> k \<and> k \<le> 601"
    using c t by (intro calculatedScore_finite) simp_all
  then obtain k where k: "calculatedScore (Fin (of_int c)) (Fin (of_int t)) = Fin (of_int k)"
    "0 \<le> k" "k \<le> 601" by blast
  have small: "\<bar>s - k\<bar> < 2 ^ 53" using s k by simp
  have v: "validateQuizSubmission body = Next \<longleftrightarrow> \<bar>s - k\<bar> \<le> 1"
    unfolding validate_Next collect_errors_ok [OF vf] s(1) t(1) c(1)
    by (rule check_cross_int [OF k(1) small])
  from s(1) t(1) c(1) k(1) small v show thesis by (rule that)
qed

lemma check_score_keys: "fst ` set errs \<subseteq> fst ` set (check_score v errs)"
  by (cases v rule: jsval_shape) (auto simp: check_score_def keys_update)

lemma check_totalQuestions_keys: "fst ` set errs \<subseteq> fst ` set (check_totalQuestions v errs)"
  by (cases v rule: jsval_shape) (auto simp: check_totalQuestions_def keys_update)

lemma check_correctAnswers_keys: "fst ` set errs \<subseteq> fst ` set (check_correctAnswers v t errs)"
  by (cases v rule: jsval_shape) (auto simp: check_correctAnswers_def keys_update)

lemma check_cross_keys: "fst ` set errs \<subseteq> fst ` set (check_cross s t c errs)"
  by (auto simp: check_cross_def keys_update split: jsval.splits)

lemma check_timeTaken_keys: "fst ` set errs \<subseteq> fst ` set (check_timeTaken v errs)"
  by (cases v rule: jsval_shape) (auto simp: check_timeTaken_def keys_update)

lemma check_category_entries_keys:
  "fst ` set errs \<subseteq> fst ` set (check_category_entries es errs)"
  by (induction es errs rule: check_category_entries.induct)
    (auto simp: keys_update split: jsval.splits)

lemma check_categories_keys: "fst ` set errs \<subseteq> fst ` set (check_categories v errs)"
  using check_category_entries_keys by (auto simp: check_categories_def keys_update)

lemma mem_flags:
  "f \<in> set ((if a then [] else [x1]) @ (if b then [] else [x2]) @ (if c then [] else [x3]) @
      (if d then [] else [x4]) @ (if e then [] else [x5])) \<longleftrightarrow>
   \<not> a \<and> f = x1 \<or> \<not> b \<and> f = x2 \<or> \<not> c \<and> f = x3 \<or> \<not> d \<and> f = x4 \<or> \<not> e \<and> f = x5"
  by auto

lemma violated_fields_reported:
  "set (violated_fields body) \<subseteq> fst ` set (collect_errors body)"
proof
  fix f assume f: "f \<in> set (violated_fields body)"
  let ?e1 = "check_score (body_score body) []"
  let ?e2 = "check_totalQuestions (body_totalQuestions body) ?e1"
  let ?e3 = "check_correctAnswers (body_correctAnswers body) (body_totalQuestions body) ?e2"
  let ?e4 = "check_cross (body_score body) (body_totalQuestions body) (body_correctAnswers body) ?e3"
  let ?e5 = "check_timeTaken (body_timeTaken body) ?e4"
  let ?e6 = "check_categories (body_categories body) ?e5"
  have c: "collect_errors body = ?e6" by (simp add: collect_errors_def)
  have m1: "fst ` set ?e1 \<subseteq> fst ` set ?e2" by (rule check_totalQuestions_keys)
  have m2: "fst ` set ?e2 \<subseteq> fst ` set ?e3" by (rule check_correctAnswers_keys)
  have m3: "fst ` set ?e3 \<subseteq> fst ` set ?e4" by (rule check_cross_keys)
  have m4: "fst ` set ?e4 \<subseteq> fst ` set ?e5" by (rule check_timeTaken_keys)
  have m5: "fst ` set ?e5 \<subseteq> fst ` set ?e6" by (rule check_categories_keys)
  from f have
    "\<not> score_ok (body_score body) \<and> f = ''score'' \<or>
     \<not> totalQuestions_ok (body_totalQuestions body) \<and> f = ''totalQuestions'' \<or>
     \<not> correctAnswers_ok (body_correctAnswers body) (body_totalQuestions body) \<and>
       f = ''correctAnswers'' \<or>
     \<not> timeTaken_ok (body_timeTaken body) \<and> f = ''timeTaken'' \<or>
     \<not> categories_ok (body_categories body) \<and> f = ''categories''"
    unfolding violated_fields_def by (simp only: mem_flags)
  then have "f \<in> fst ` set ?e6"
  proof (elim disjE conjE)
    assume n: "\<not> score_ok (body_score body)" and e: "f = ''score''"
    from n have "''score'' \<in> fst ` set ?e1" by (rule check_score_bad)
    then have "f \<in> fst ` set ?e1" by (simp only: e)
    then have "f \<in> fst ` set ?e2" by (rule subsetD [OF m1])
    then have "f \<in> fst ` set ?e3" by (rule subsetD [OF m2])
    then have "f \<in> fst ` set ?e4" by (rule subsetD [OF m3])
    then have "f \<in> fst ` set ?e5" by (rule subsetD [OF m4])
    then have "f \<in> fst ` set ?e6" by (rule subsetD [OF m5])
    then show ?thesis .
  next
    assume n: "\<not> totalQuestions_ok (body_totalQuestions body)" and e: "f = ''totalQuestions''"
    from n have "''totalQuestions'' \<in> fst ` set ?e2" by (rule check_totalQuestions_bad)
    then have "f \<in> fst ` set ?e2" by (simp only: e)
    then have "f \<in> fst ` set ?e3" by (rule subsetD [OF m2])
    then have "f \<in> fst ` set ?e4" by (rule subsetD [OF m3])
    then have "f \<in> fst ` set ?e5" by (rule subsetD [OF m4])
    then have "f \<in> fst ` set ?e6" by (rule subsetD [OF m5])
    then show ?thesis .
  next
    assume n: "\<not> correctAnswers_ok (body_correctAnswers body) (body_totalQuestions body)" and e: "f = ''correctAnswers''"
    from n have "''correctAnswers'' \<in> fst ` set ?e3" by (rule check_correctAnswers_bad)
    then have "f \<in> fst ` set ?e3" by (simp only: e)
    then have "f \<in> fst ` set ?e4" by (rule subsetD [OF m3])
    then have "f \<in> fst ` set ?e5" by (rule subsetD [OF m4])
    then have "f \<in> fst ` set ?e6" by (rule subsetD [OF m5])
    then show ?thesis .
  next
    assume n: "\<not> timeTaken_ok (body_timeTaken body)" and e: "f = ''timeTaken''"
    from n have "''timeTaken'' \<in> fst ` set ?e5" by (rule check_timeTaken_bad)
    then have "f \<in> fst ` set ?e5" by (simp only: e)
    then have "f \<in> fst ` set ?e6" by (rule subsetD [OF m5])
    then show ?thesis .
  next
    assume n: "\<not> categories_ok (body_categories body)" and e: "f = ''categories''"
    from n have "''categories'' \<in> fst ` set ?e6" by (rule check_categories_bad)
    then have "f \<in> fst ` set ?e6" by (simp only: e)
    then show ?thesis .
  qed
  then show "f \<in> fst ` set (collect_errors body)" by (simp only: c)
qed

lemmas ok_defs = score_ok_def totalQuestions_ok_def correctAnswers_ok_def
  timeTaken_ok_def categories_ok_def category_entry_ok_def integral_def

lemmas check_defs = check_score_def check_totalQuestions_def check_correctAnswers_def
  check_cross_def check_timeTaken_def check_categories_def collect_errors_def
  validateQuizSubmission_def js_gt_def

lemma five_violations_response:
  "validateQuizSubmission \<lparr>body_score = JNum (Fin 150), body_totalQuestions = JNum (Fin 0),
       body_correctAnswers = JNum (Fin (- 1)), body_timeTaken = JNum (Fin 0),
       body_categories = JStr ''x''\<rparr> =
   Status400
     [(''score'', ''Score does not match the correct answers and total questions''),
      (''totalQuestions'', ''Total questions must be between 1 and 50''),
      (''correctAnswers'', ''Correct answers cannot be negative''),
      (''timeTaken'', ''Time taken must be at least 1 second''),
      (''categories'', ''Categories must be an object'')]"
  by (simp add: check_defs calculatedScore_def integral_def)

lemmas fl_eval = fl_def ilog2_def bitlen_pos bitlen_nonpos round_half_even_def Let_def
  floor_rat_numeral_div ceiling_rat_numeral_div floor_rat_one_div

lemma calculatedScore_2_4: "calculatedScore (Fin 2) (Fin 4) = Fin 50"
  by (simp add: calculatedScore_def fl_eval)

lemma calculatedScore_23_40: "calculatedScore (Fin 23) (Fin 40) = Fin 57"
  by (simp add: calculatedScore_def fl_eval)

lemma fl_error:
  assumes "\<bar>x\<bar> \<le> 2 ^ 1000"
  shows "\<exists>y. fl x = Fin y \<and> \<bar>y - x\<bar> \<le> \<bar>x\<bar> / 2 ^ 53 + 1 / 2 ^ 1075 \<and> (0 \<le> x \<longrightarrow> 0 \<le> y)"
proof (cases "x = 0")
  case True
  then show ?thesis by (simp add: fl_def)
next
  case False
  define a where "a = \<bar>x\<bar>"
  define e where "e = max (ilog2 a) (- 1022)"
  define q :: rat where "q = 2 powi (e - 52)"
  define r where "r = of_int (round_half_even (a / q)) * q"
  from False have a0: "0 < a" by (simp add: a_def)
  have q0: "0 < q" by (simp add: q_def)
  have qa: "q \<le> a / 2 ^ 52 + 1 / 2 ^ 1074"
  proof (cases "- 1022 \<le> ilog2 a")
    case True
    then have "e = ilog2 a" by (simp add: e_def)
    then have "q = 2 powi (ilog2 a) * 2 powi (- 52)"
      by (simp add: q_def power_int_diff power_int_minus field_simps)
    also have "\<dots> = 2 powi (ilog2 a) / 2 ^ 52"
      by (simp add: power_int_def field_simps)
    also have "\<dots> \<le> a / 2 ^ 52"
      using ilog2_lower [OF a0] by (intro divide_right_mono) simp_all
    finally show ?thesis by simp
  next
    case False
    then have "e = - 1022" by (simp add: e_def)
    then have "q = 1 / 2 ^ 1074" by (simp add: q_def power_int_def field_simps)
    with a0 show ?thesis by simp
  qed
  have "r \<le> (a / q + 1 / 2) * q"
    unfolding r_def using round_half_even_bounds(1) [of "a / q"] q0
    by (intro mult_right_mono) simp_all
  also have "\<dots> = a + q / 2" using q0 by (simp add: field_simps)
  finally have r_hi: "r \<le> a + q / 2" .
  have "a - q / 2 = (a / q - 1 / 2) * q" using q0 by (simp add: field_simps)
  also have "\<dots> \<le> r"
    unfolding r_def using round_half_even_bounds(2) [of "a / q"] q0
    by (intro mult_right_mono) simp_all
  finally have r_lo: "a - q / 2 \<le> r" .
  have err: "\<bar>r - a\<bar> \<le> a / 2 ^ 53 + 1 / 2 ^ 1075"
  proof -
    have "\<bar>r - a\<bar> \<le> q / 2" using r_hi r_lo by (intro abs_leI) linarith+
    also have "\<dots> \<le> (a / 2 ^ 52 + 1 / 2 ^ 1074) / 2" using qa by simp
    also have "\<dots> = a / 2 ^ 53 + 1 / 2 ^ 1075" by simp
    finally show ?thesis .
  qed
  have r0: "0 \<le> r"
    unfolding r_def using round_half_even_nonneg [of "a / q"] a0 q0 by simp
  have big: "\<not> 2 powi 1024 \<le> r"
  proof -
    have "q \<le> a + 1"
    proof -
      have "a / 2 ^ 52 \<le> a / 1" using a0 by (intro divide_left_mono) simp_all
      moreover have "(1::rat) / 2 ^ 1074 \<le> 1" by simp
      ultimately show ?thesis using qa by simp
    qed
    with r_hi a0 have "r \<le> 2 * a + 1" by simp
    also have "\<dots> \<le> 2 * 2 ^ 1000 + 1" using assms by (simp add: a_def)
    also have "\<dots> < (2::rat) ^ 1024" by simp
    finally show ?thesis by (simp add: power_int_def)
  qed
  have "fl x = Fin (if 0 < x then r else - r)"
    using False big unfolding fl_def Let_def a_def [symmetric] e_def [symmetric]
      q_def [symmetric] r_def [symmetric] by simp
  moreover have "\<bar>(if 0 < x then r else - r) - x\<bar> \<le> \<bar>x\<bar> / 2 ^ 53 + 1 / 2 ^ 1075"
  proof (cases "0 < x")
    case True
    then have "a = x" by (simp add: a_def)
    with err True show ?thesis by simp
  next
    case neg: False
    with False have "a = - x" by (simp add: a_def)
    then have "\<bar>r - a\<bar> = \<bar>- r - x\<bar>" by (simp add: abs_minus_commute)
    with err neg \<open>a = - x\<close> show ?thesis by simp
  qed
  moreover have "0 \<le> x \<longrightarrow> 0 \<le> (if 0 < x then r else - r)"
    using r0 False by simp
  ultimately show ?thesis by blast
qed

lemma abs_chain: "\<bar>(u::rat) - w * 100\<bar> \<le> \<bar>u - v * 100\<bar> + 100 * \<bar>v - w\<bar>"
proof -
  have "u - w * 100 = (u - v * 100) + 100 * (v - w)" by (simp add: algebra_simps)
  moreover have "\<bar>(u - v * 100) + 100 * (v - w)\<bar> \<le> \<bar>u - v * 100\<bar> + \<bar>100 * (v - w)\<bar>"
    by (rule abs_triangle_ineq)
  moreover have "\<bar>100 * (v - w)\<bar> = 100 * \<bar>v - w\<bar>"
    by (subst abs_mult) simp
  ultimately show ?thesis by (simp only:)
qed

lemma percentage_error:
  assumes "0 \<le> c" "c \<le> t" "0 < t"
  shows "\<exists>y. js_mul (js_div (Fin c) (Fin t)) (Fin 100) = Fin y \<and>
             \<bar>y - c / t * 100\<bar> \<le> 1 / 2 ^ 40 \<and> 0 \<le> y"
proof -
  have x: "0 \<le> c / t" "c / t \<le> 1" using assms by simp_all
  then have "\<bar>c / t\<bar> \<le> 2 ^ 1000"
    by (simp add: order_trans [OF _ one_le_power])
  from fl_error [OF this] x obtain y1
    where y1: "fl (c / t) = Fin y1" "0 \<le> y1"
      and e1: "\<bar>y1 - c / t\<bar> \<le> \<bar>c / t\<bar> / 2 ^ 53 + 1 / 2 ^ 1075" by auto
  have e1': "\<bar>y1 - c / t\<bar> \<le> 1 / 2 ^ 52"
  proof -
    have "\<bar>c / t\<bar> / 2 ^ 53 \<le> 1 / 2 ^ 53" using x by (intro divide_right_mono) simp_all
    moreover have "(1::rat) / 2 ^ 1075 \<le> 1 / 2 ^ 53" by (intro divide_left_mono power_increasing) simp_all
    ultimately have "\<bar>y1 - c / t\<bar> \<le> 1 / 2 ^ 53 + 1 / 2 ^ 53" using e1 by linarith
    then show ?thesis by simp
  qed
  have y1le: "y1 \<le> 2"
  proof -
    have "y1 - c / t \<le> \<bar>y1 - c / t\<bar>" by simp
    moreover have "(1::rat) / 2 ^ 52 \<le> 1" by simp
    ultimately show ?thesis using e1' x by linarith
  qed
  have "\<bar>y1 * 100\<bar> \<le> 2 ^ 1000"
  proof -
    have "\<bar>y1 * 100\<bar> \<le> 2 ^ 9" using y1 y1le by simp
    also have "\<dots> \<le> (2::rat) ^ 1000" by (rule power_increasing) simp_all
    finally show ?thesis .
  qed
  from fl_error [OF this] y1 obtain y2
    where y2: "fl (y1 * 100) = Fin y2" "0 \<le> y2"
      and e2: "\<bar>y2 - y1 * 100\<bar> \<le> \<bar>y1 * 100\<bar> / 2 ^ 53 + 1 / 2 ^ 1075" by auto
  have e2': "\<bar>y2 - y1 * 100\<bar> \<le> 1 / 2 ^ 44"
  proof -
    have "\<bar>y1 * 100\<bar> / 2 ^ 53 \<le> 200 / 2 ^ 53" using y1 y1le by (intro divide_right_mono) simp_all
    moreover have "(1::rat) / 2 ^ 1075 \<le> 1 / 2 ^ 53" by (intro divide_left_mono power_increasing) simp_all
    ultimately have "\<bar>y2 - y1 * 100\<bar> \<le> 200 / 2 ^ 53 + 1 / 2 ^ 53" using e2 by linarith
    then show ?thesis by simp
  qed
  have "\<bar>y2 - c / t * 100\<bar> \<le> \<bar>y2 - y1 * 100\<bar> + 100 * \<bar>y1 - c / t\<bar>"
    by (rule abs_chain)
  also have "\<dots> \<le> 1 / 2 ^ 44 + 100 * (1 / 2 ^ 52)"
    by (intro add_mono mult_left_mono e1' e2') simp
  also have "\<dots> \<le> 1 / 2 ^ 40" by simp
  finally have "\<bar>y2 - c / t * 100\<bar> \<le> 1 / 2 ^ 40" .
  moreover have "js_mul (js_div (Fin c) (Fin t)) (Fin 100) = Fin y2"
    using assms y1 y2 by simp
  ultimately show ?thesis using y2(2) by blast
qed

lemma floor_stable:
  fixes y :: rat and n d :: int
  assumes d: "0 < d" and rem: "n mod d \<noteq> 0"
    and close: "\<bar>y - of_int n / of_int d\<bar> < 1 / of_int d"
  shows "\<lfloor>y\<rfloor> = n div d"
proof (rule floor_unique)
  define k where "k = n div d"
  define m where "m = n mod d"
  have n: "n = k * d + m" by (simp add: k_def m_def)
  have m1: "1 \<le> m" "m \<le> d - 1"
    using d rem pos_mod_sign [of d n] pos_mod_bound [of d n] unfolding m_def by linarith+
  have dq: "(0::rat) < of_int d" using d by simp
  have frac: "of_int n / of_int d = (of_int k :: rat) + of_int m / of_int d"
    using dq by (simp add: n field_simps)
  have lo: "(1::rat) / of_int d \<le> of_int m / of_int d"
    using m1 dq by (intro divide_right_mono) simp_all
  have hi: "of_int m / of_int d \<le> (1::rat) - 1 / of_int d"
  proof -
    have "(of_int m :: rat) \<le> of_int (d - 1)" using m1 by (simp only: of_int_le_iff)
    then have "of_int m / of_int d \<le> (of_int (d - 1) :: rat) / of_int d"
      using dq by (intro divide_right_mono) simp_all
    also have "\<dots> = 1 - 1 / of_int d" using dq by (simp add: field_simps)
    finally show ?thesis .
  qed
  from close have c1: "of_int n / of_int d - 1 / of_int d < y"
    and c2: "y < of_int n / of_int d + 1 / of_int d" by (simp_all add: abs_less_iff)
  show "of_int (n div d) \<le> y" using c1 lo unfolding frac k_def [symmetric] by linarith
  show "y < of_int (n div d) + 1" using c2 hi unfolding frac k_def [symmetric] by linarith
qed

lemma round_half_up_percent_div:
  assumes "0 < t"
  shows "round_half_up_percent c t = (200 * c + t) div (2 * t)"
proof -
  have "(of_int c / of_int t * 100 + 1 / 2 :: rat) = of_int (200 * c + t) / of_int (2 * t)"
    using assms by (simp add: field_simps)
  then show ?thesis
    unfolding round_half_up_percent_def by (simp only: floor_divide_of_int_eq)
qed

lemmas percent_eval = calculatedScore_def fl_eval

lemma half_way_8_32:
  "list_all (\<lambda>(t, c, k). calculatedScore (Fin (of_int c)) (Fin (of_int t)) = Fin (of_int k))
     [(8, 1, 13), (8, 3, 38), (8, 5, 63), (8, 7, 88), (16, 2, 13), (16, 6, 38), (16, 10, 63), (16, 14, 88), (24, 3, 13), (24, 9, 38), (24, 15, 63), (24, 21, 88), (32, 4, 13), (32, 12, 38), (32, 20, 63), (32, 28, 88)]"
  apply (simp only: list.pred_inject prod.case)
  apply (intro conjI TrueI)
  apply (simp_all add: percent_eval)
  done

lemma half_way_40a:
  "list_all (\<lambda>(t, c, k). calculatedScore (Fin (of_int c)) (Fin (of_int t)) = Fin (of_int k))
     [(40, 1, 3), (40, 3, 8), (40, 5, 13), (40, 7, 18), (40, 9, 23), (40, 11, 28), (40, 13, 33)]"
  apply (simp only: list.pred_inject prod.case)
  apply (intro conjI TrueI)
  apply (simp_all add: percent_eval)
  done

lemma half_way_40b:
  "list_all (\<lambda>(t, c, k). calculatedScore (Fin (of_int c)) (Fin (of_int t)) = Fin (of_int k))
     [(40, 15, 38), (40, 17, 43), (40, 19, 48), (40, 21, 53), (40, 23, 57), (40, 25, 63), (40, 27, 68)]"
  apply (simp only: list.pred_inject prod.case)
  apply (intro conjI TrueI)
  apply (simp_all add: percent_eval)
  done

lemma half_way_40c:
  "list_all (\<lambda>(t, c, k). calculatedScore (Fin (of_int c)) (Fin (of_int t)) = Fin (of_int k))
     [(40, 29, 73), (40, 31, 78), (40, 33, 83), (40, 35, 88), (40, 37, 93), (40, 39, 98)]"
  apply (simp only: list.pred_inject prod.case)
  apply (intro conjI TrueI)
  apply (simp_all add: percent_eval)
  done

lemma half_way_48:
  "list_all (\<lambda>(t, c, k). calculatedScore (Fin (of_int c)) (Fin (of_int t)) = Fin (of_int k))
     [(48, 6, 13), (48, 18, 38), (48, 30, 63), (48, 42, 88)]"
  apply (simp only: list.pred_inject prod.case)
  apply (intro conjI TrueI)
  apply (simp_all add: percent_eval)
  done

lemma half_way_enumerated:
  "list_all (\<lambda>t. list_all (\<lambda>c. (200 * c + t) mod (2 * t) \<noteq> 0 \<or> (t, c) \<in> set half_way_pairs)
      [0..t]) [1..50]"
  by code_simp


lemma half_way_values:
  "list_all (\<lambda>(t, c). calculatedScore (Fin (of_int c)) (Fin (of_int t)) =
       Fin (of_int ((200 * c + t) div (2 * t) - (if c = 23 \<and> t = 40 then 1 else 0))))
     half_way_pairs"
  using half_way_8_32 half_way_40a half_way_40b half_way_40c half_way_48
  unfolding half_way_pairs_def by (simp only: list.pred_inject prod.case) simp

lemma calculatedScore_binary64:
  assumes "1 \<le> t" "t \<le> 50" "0 \<le> c" "c \<le> t"
  shows "calculatedScore (Fin (of_int c)) (Fin (of_int t)) = Fin (of_int (binary64_percent c t))"
proof (cases "(200 * c + t) mod (2 * t) = 0")
  case True
  have ts: "t \<in> set [1..50]" and cs: "c \<in> set [0..t]" using assms by simp_all
  have "\<forall>t\<in>set [1..50]. \<forall>c\<in>set [0..t].
      (200 * c + t) mod (2 * t) \<noteq> 0 \<or> (t, c) \<in> set half_way_pairs"
    using half_way_enumerated unfolding list_all_iff .
  from this ts have "\<forall>c\<in>set [0..t].
      (200 * c + t) mod (2 * t) \<noteq> 0 \<or> (t, c) \<in> set half_way_pairs" by (rule bspec)
  from this cs have "(200 * c + t) mod (2 * t) \<noteq> 0 \<or> (t, c) \<in> set half_way_pairs"
    by (rule bspec)
  with True have "(t, c) \<in> set half_way_pairs" by simp
  moreover have "\<forall>(t, c)\<in>set half_way_pairs.
      calculatedScore (Fin (of_int c)) (Fin (of_int t)) =
       Fin (of_int ((200 * c + t) div (2 * t) - (if c = 23 \<and> t = 40 then 1 else 0)))"
    using half_way_values unfolding list_all_iff .
  ultimately have
    "calculatedScore (Fin (of_int c)) (Fin (of_int t)) =
       Fin (of_int ((200 * c + t) div (2 * t) - (if c = 23 \<and> t = 40 then 1 else 0)))"
    by (auto dest: bspec)
  moreover have "(200 * c + t) div (2 * t) - (if c = 23 \<and> t = 40 then 1 else 0) =
      binary64_percent c t"
    using assms by (auto simp: binary64_percent_def round_half_up_percent_div)
  ultimately show ?thesis by simp
next
  case False
  have "0 \<le> (of_int c :: rat)" "(of_int c :: rat) \<le> of_int t" "0 < (of_int t :: rat)"
    using assms by simp_all
  from percentage_error [OF this] obtain y where
    y: "js_mul (js_div (Fin (of_int c)) (Fin (of_int t))) (Fin 100) = Fin y"
    and e: "\<bar>y - of_int c / of_int t * 100\<bar> \<le> 1 / 2 ^ 40" by blast
  have d: "0 < 2 * t" using assms by simp
  have eq: "(of_int (200 * c + t) :: rat) / of_int (2 * t) = of_int c / of_int t * 100 + 1 / 2"
    using assms by (simp add: field_simps)
  have "(1::rat) / 2 ^ 40 < 1 / of_int (2 * t)"
  proof -
    have "2 * t \<le> 100" using assms by simp
    then have "(of_int (2 * t) :: rat) \<le> of_int 100" by (simp only: of_int_le_iff)
    also have "\<dots> < 2 ^ 40" by simp
    finally have "(of_int (2 * t) :: rat) < 2 ^ 40" .
    moreover have "(0::rat) < of_int (2 * t)" using d by (simp only: of_int_0_less_iff)
    ultimately show ?thesis by (intro divide_strict_left_mono) simp_all
  qed
  with e have "\<bar>(y + 1 / 2) - of_int (200 * c + t) / of_int (2 * t)\<bar> < 1 / of_int (2 * t)"
    unfolding eq by simp
  from floor_stable [OF d False this] have "\<lfloor>y + 1 / 2\<rfloor> = (200 * c + t) div (2 * t)" .
  moreover have "\<not> (c = 23 \<and> t = 40)" using False by auto
  ultimately have "\<lfloor>y + 1 / 2\<rfloor> = binary64_percent c t"
    using assms by (simp add: binary64_percent_def round_half_up_percent_div)
  then show ?thesis using y by (simp add: calculatedScore_def)
qed

lemma accept_iff_binary64:
  assumes "score_ok (body_score body)" "totalQuestions_ok (body_totalQuestions body)"
    "correctAnswers_ok (body_correctAnswers body) (body_totalQuestions body)"
    "timeTaken_ok (body_timeTaken body)" "categories_ok (body_categories body)"
  obtains s t c where
     "body_score body = JNum (Fin (of_int s))"
     "body_totalQuestions body = JNum (Fin (of_int t))"
     "body_correctAnswers body = JNum (Fin (of_int c))"
     "0 \<le> s" "s \<le> 100" "1 \<le> t" "t \<le> 50" "0 \<le> c" "c \<le> t"
     "validateQuizSubmission body = Next \<longleftrightarrow> \<bar>s - binary64_percent c t\<bar> \<le> 1"
     "pre_save (Fin (of_int s)) (Fin (of_int c)) (Fin (of_int t)) = None \<longleftrightarrow>
        \<bar>s - binary64_percent c t\<bar> \<le> 1"
proof -
  have vf: "violated_fields body = []" using assms by (simp add: violated_fields_Nil)
  from assms(1) obtain s where s: "body_score body = JNum (Fin (of_int s))" "0 \<le> s" "s \<le> 100"
    by (rule score_ok_D)
  from assms(2) obtain t where t: "body_totalQuestions body = JNum (Fin (of_int t))" "1 \<le> t" "t \<le> 50"
    by (rule totalQuestions_ok_D)
  from assms(3) obtain c where c: "body_correctAnswers body = JNum (Fin (of_int c))" "0 \<le> c" "c \<le> t"
    unfolding t(1) by (rule correctAnswers_ok_D)
  define k where "k = binary64_percent c t"
  have k: "calculatedScore (Fin (of_int c)) (Fin (of_int t)) = Fin (of_int k)"
    unfolding k_def using t(2,3) c(2,3) by (rule calculatedScore_binary64)
  have "\<exists>k'. calculatedScore (Fin (of_int c)) (Fin (of_int t)) = Fin (of_int k') \<and> 0 \<le> k' \<and> k' \<le> 601"
    using c t by (intro calculatedScore_finite) simp_all
  then obtain k' where "Fin (rat_of_int k) = Fin (rat_of_int k')" "0 \<le> k'" "k' \<le> 601"
    unfolding k by blast
  then have kb: "0 \<le> k" "k \<le> 601" by simp_all
  have small: "\<bar>s - k\<bar> < 2 ^ 53" using s kb by simp
  have v: "validateQuizSubmission body = Next \<longleftrightarrow> \<bar>s - k\<bar> \<le> 1"
    unfolding validate_Next collect_errors_ok [OF vf] s(1) t(1) c(1)
    by (rule check_cross_int [OF k small])
  have p: "pre_save (Fin (of_int s)) (Fin (of_int c)) (Fin (of_int t)) = None \<longleftrightarrow> \<bar>s - k\<bar> \<le> 1"
    by (rule pre_save_int [OF k small])
  from s(1) t(1) c(1) s(2,3) t(2,3) c(2,3) v [unfolded k_def] p [unfolded k_def]
  show thesis by (rule that)
qed

lemma fl_small_int:
  "fl 2 = Fin 2" "fl 1 = Fin 1" "fl (- 1) = Fin (- 1)"
  using fl_of_int [of 2] fl_of_int [of 1] fl_of_int [of "- 1"] by simp_all


text \<open>
  Claim C1, as stated with \<open>round(23 / 40 * 100) = 58\<close>, fails at \<open>t = 40\<close>, \<open>c = 23\<close>: the
  body with score 59 passes every structural check and differs from 58 by 1, and it is
  rejected; the body with score 56 differs from 58 by 2, and it is accepted.
\<close>

theorem validateQuizSubmission_tolerance_counterexample:
  "violated_fields \<lparr>body_score = JNum (Fin 59), body_totalQuestions = JNum (Fin 40),
       body_correctAnswers = JNum (Fin 23), body_timeTaken = JUndefined,
       body_categories = JUndefined\<rparr> = [] \<and>
   \<lfloor>(23 / 40 * 100 + 1 / 2 :: rat)\<rfloor> = 58 \<and>
   \<bar>59 - \<lfloor>(23 / 40 * 100 + 1 / 2 :: rat)\<rfloor>\<bar> \<le> 1 \<and>
   validateQuizSubmission \<lparr>body_score = JNum (Fin 59), body_totalQuestions = JNum (Fin 40),
       body_correctAnswers = JNum (Fin 23), body_timeTaken = JUndefined,
       body_categories = JUndefined\<rparr> =
     Status400 [(''score'', ''Score does not match the correct answers and total questions'')] \<and>
   violated_fields \<lparr>body_score = JNum (Fin 56), body_totalQuestions = JNum (Fin 40),
       body_correctAnswers = JNum (Fin 23), body_timeTaken = JUndefined,
       body_categories = JUndefined\<rparr> = [] \<and>
   \<not> \<bar>56 - \<lfloor>(23 / 40 * 100 + 1 / 2 :: rat)\<rfloor>\<bar> \<le> 1 \<and>
   validateQuizSubmission \<lparr>body_score = JNum (Fin 56), body_totalQuestions = JNum (Fin 40),
       body_correctAnswers = JNum (Fin 23), body_timeTaken = JUndefined,
       body_categories = JUndefined\<rparr> = Next"
proof -
  have f: "\<lfloor>(23 / 40 * 100 + 1 / 2 :: rat)\<rfloor> = 58" by (simp add: floor_rat_numeral_div)
  have v1: "violated_fields \<lparr>body_score = JNum (Fin 59), body_totalQuestions = JNum (Fin 40),
       body_correctAnswers = JNum (Fin 23), body_timeTaken = JUndefined,
       body_categories = JUndefined\<rparr> = []"
    by (simp add: violated_fields_def ok_defs)
  have v2: "violated_fields \<lparr>body_score = JNum (Fin 56), body_totalQuestions = JNum (Fin 40),
       body_correctAnswers = JNum (Fin 23), body_timeTaken = JUndefined,
       body_categories = JUndefined\<rparr> = []"
    by (simp add: violated_fields_def ok_defs)
  have r1: "validateQuizSubmission \<lparr>body_score = JNum (Fin 59), body_totalQuestions = JNum (Fin 40),
       body_correctAnswers = JNum (Fin 23), body_timeTaken = JUndefined,
       body_categories = JUndefined\<rparr> =
     Status400 [(''score'', ''Score does not match the correct answers and total questions'')]"
    by (simp add: check_defs integral_def calculatedScore_23_40 fl_small_int)
  have r2: "validateQuizSubmission \<lparr>body_score = JNum (Fin 56), body_totalQuestions = JNum (Fin 40),
       body_correctAnswers = JNum (Fin 23), body_timeTaken = JUndefined,
       body_categories = JUndefined\<rparr> = Next"
    by (simp add: check_defs integral_def calculatedScore_23_40 fl_small_int)
  from f v1 v2 r1 r2 show ?thesis by simp
qed


text \<open>
  Claim C1, as the code has it. For every submitted body whose structural field checks
  pass, with score \<open>s\<close>, \<open>c\<close> correct answers and \<open>t\<close> questions, the middleware accepts
  the body (calls \<open>next\<close>) if and only if \<open>|s - k| \<le> 1\<close>, where \<open>k\<close> is
  \<open>Math.round((c / t) * 100)\<close> computed in binary64: \<open>k\<close> is \<open>round(c / t * 100)\<close>, a half
  rounded up, for every \<open>0 \<le> c \<le> t \<le> 50\<close> except \<open>c = 23\<close>, \<open>t = 40\<close>, where \<open>k = 57\<close>. The
  pre-save hook of the model applies the same test.
\<close>

theorem validateQuizSubmission_binary64_tolerance:
  assumes "violated_fields body = []"
  shows "\<exists>s t c.
     body_score body = JNum (Fin (of_int s)) \<and>
     body_totalQuestions body = JNum (Fin (of_int t)) \<and>
     body_correctAnswers body = JNum (Fin (of_int c)) \<and>
     0 \<le> c \<and> c \<le> t \<and> 1 \<le> t \<and> t \<le> 50 \<and>
     (validateQuizSubmission body = Next \<longleftrightarrow>
        \<bar>s - (if c = 23 \<and> t = 40 then 57
                else \<lfloor>(of_int c / of_int t * 100 + 1 / 2 :: rat)\<rfloor>)\<bar> \<le> 1) \<and>
     (pre_save (Fin (of_int s)) (Fin (of_int c)) (Fin (of_int t)) = None \<longleftrightarrow>
        \<bar>s - (if c = 23 \<and> t = 40 then 57
                else \<lfloor>(of_int c / of_int t * 100 + 1 / 2 :: rat)\<rfloor>)\<bar> \<le> 1)"
proof -
  from assms have ok: "score_ok (body_score body)" "totalQuestions_ok (body_totalQuestions body)"
    "correctAnswers_ok (body_correctAnswers body) (body_totalQuestions body)"
    "timeTaken_ok (body_timeTaken body)" "categories_ok (body_categories body)"
    by (simp_all add: violated_fields_Nil)
  from ok show ?thesis
  proof (rule accept_iff_binary64)
    fix s t c
    assume "body_score body = JNum (Fin (of_int s))"
      "body_totalQuestions body = JNum (Fin (of_int t))"
      "body_correctAnswers body = JNum (Fin (of_int c))"
      "0 \<le> s" "s \<le> 100" "1 \<le> t" "t \<le> 50" "0 \<le> c" "c \<le> t"
      "validateQuizSubmission body = Next \<longleftrightarrow> \<bar>s - binary64_percent c t\<bar> \<le> 1"
      "pre_save (Fin (of_int s)) (Fin (of_int c)) (Fin (of_int t)) = None \<longleftrightarrow>
        \<bar>s - binary64_percent c t\<bar> \<le> 1"
    then show ?thesis
      unfolding binary64_percent_def round_half_up_percent_def by (intro exI conjI)
  qed
qed


theorem validateQuizSubmission_binary64_tolerance_witness:
  "violated_fields \<lparr>body_score = JNum (Fin 50), body_totalQuestions = JNum (Fin 4),
       body_correctAnswers = JNum (Fin 2), body_timeTaken = JUndefined,
       body_categories = JUndefined\<rparr> = [] \<and>
   validateQuizSubmission \<lparr>body_score = JNum (Fin 50), body_totalQuestions = JNum (Fin 4),
       body_correctAnswers = JNum (Fin 2), body_timeTaken = JUndefined,
       body_categories = JUndefined\<rparr> = Next"
proof -
  let ?b = "\<lparr>body_score = JNum (Fin 50), body_totalQuestions = JNum (Fin 4),
       body_correctAnswers = JNum (Fin 2), body_timeTaken = JUndefined,
       body_categories = JUndefined\<rparr>"
  have v: "violated_fields ?b = []"
    by (simp add: violated_fields_def ok_defs)
  from validateQuizSubmission_binary64_tolerance [OF v] obtain s t c where
    "JNum (Fin 50) = JNum (Fin (rat_of_int s))" "JNum (Fin 4) = JNum (Fin (rat_of_int t))"
    "JNum (Fin 2) = JNum (Fin (rat_of_int c))"
    and iff: "validateQuizSubmission ?b = Next \<longleftrightarrow>
        \<bar>s - (if c = 23 \<and> t = 40 then 57
                else \<lfloor>(of_int c / of_int t * 100 + 1 / 2 :: rat)\<rfloor>)\<bar> \<le> 1" by auto
  then have "rat_of_int s = 50" "rat_of_int t = 4" "rat_of_int c = 2" by simp_all
  then have stc: "s = 50" "t = 4" "c = 2" by linarith+
  have "validateQuizSubmission ?b = Next" unfolding iff stc by simp
  with v show ?thesis by (rule conjI)
qed

text \<open>
  Claim C8. When one or more fields of a body (among \<open>score\<close>, \<open>totalQuestions\<close>,
  \<open>correctAnswers\<close>, \<open>timeTaken\<close>, \<open>categories\<close>) violate their structural check, the
  middleware answers with a single rejection, and the \<open>errors\<close> object of that rejection
  has an entry for every violated field, not only for the first one.
\<close>

theorem all_violations_reported:
  assumes "violated_fields body \<noteq> []"
  shows "\<exists>errors. validateQuizSubmission body = Status400 errors \<and>
           set (violated_fields body) \<subseteq> fst ` set errors"
proof -
  from assms obtain f fs where "violated_fields body = f # fs"
    by (cases "violated_fields body") simp_all
  then have "f \<in> set (violated_fields body)" by simp
  then have "f \<in> fst ` set (collect_errors body)" by (rule subsetD [OF violated_fields_reported])
  then have "collect_errors body \<noteq> []" by auto
  then have "validateQuizSubmission body = Status400 (collect_errors body)"
    by (simp add: validateQuizSubmission_def Let_def)
  then show ?thesis using violated_fields_reported [of body] by (intro exI conjI)
qed

theorem all_violations_reported_witness:
  "violated_fields \<lparr>body_score = JNum (Fin 150), body_totalQuestions = JNum (Fin 0),
       body_correctAnswers = JNum (Fin (- 1)), body_timeTaken = JNum (Fin 0),
       body_categories = JStr ''x''\<rparr> \<noteq> [] \<and>
   (\<exists>errors. validateQuizSubmission \<lparr>body_score = JNum (Fin 150),
       body_totalQuestions = JNum (Fin 0), body_correctAnswers = JNum (Fin (- 1)),
       body_timeTaken = JNum (Fin 0), body_categories = JStr ''x''\<rparr> = Status400 errors \<and>
     set [''score'', ''totalQuestions'', ''correctAnswers'', ''timeTaken'', ''categories'']
       \<subseteq> fst ` set errors)"
proof -
  let ?b = "\<lparr>body_score = JNum (Fin 150), body_totalQuestions = JNum (Fin 0),
       body_correctAnswers = JNum (Fin (- 1)), body_timeTaken = JNum (Fin 0),
       body_categories = JStr ''x''\<rparr>"
  have v: "violated_fields ?b =
      [''score'', ''totalQuestions'', ''correctAnswers'', ''timeTaken'', ''categories'']"
    by (simp add: violated_fields_def ok_defs)
  then have n: "violated_fields ?b \<noteq> []" by (simp only:) simp
  from all_violations_reported [OF n] have
    "\<exists>errors. validateQuizSubmission ?b = Status400 errors \<and>
       set [''score'', ''totalQuestions'', ''correctAnswers'', ''timeTaken'', ''categories'']
         \<subseteq> fst ` set errors"
    by (simp only: v)
  with n show ?thesis by (rule conjI)
qed


text \<open>
  Claim C10. When \<open>timeTaken\<close> and \<open>categories\<close> are both absent (\<open>undefined\<close> or
  \<open>null\<close>), their blocks add no error whatever has been collected, and a body whose
  \<open>score\<close>, \<open>totalQuestions\<close> and \<open>correctAnswers\<close> pass their structural checks is
  accepted exactly when the score cross-check holds: both fields are optional.
\<close>

theorem optional_fields_absent:
  assumes "body_timeTaken body \<in> {JUndefined, JNull}"
    and "body_categories body \<in> {JUndefined, JNull}"
  shows "(\<forall>errs. check_timeTaken (body_timeTaken body) errs = errs \<and>
            check_categories (body_categories body) errs = errs) \<and>
     (score_ok (body_score body) \<and> totalQuestions_ok (body_totalQuestions body) \<and>
      correctAnswers_ok (body_correctAnswers body) (body_totalQuestions body) \<longrightarrow>
        (\<exists>s t c k.
           body_score body = JNum (Fin (of_int s)) \<and>
           body_totalQuestions body = JNum (Fin (of_int t)) \<and>
           body_correctAnswers body = JNum (Fin (of_int c)) \<and>
           calculatedScore (Fin (of_int c)) (Fin (of_int t)) = Fin (of_int k) \<and>
           (validateQuizSubmission body = Next \<longleftrightarrow> \<bar>s - k\<bar> \<le> 1)))"
proof (intro conjI allI impI)
  from assms(1) have tt: "timeTaken_ok (body_timeTaken body)"
    by (auto simp: timeTaken_ok_def)
  from assms(2) have ct: "categories_ok (body_categories body)"
    by (auto simp: categories_ok_def)
  fix errs
  show "check_timeTaken (body_timeTaken body) errs = errs" by (rule check_timeTaken_ok [OF tt])
  show "check_categories (body_categories body) errs = errs" by (rule check_categories_ok [OF ct])
  assume "score_ok (body_score body) \<and> totalQuestions_ok (body_totalQuestions body) \<and>
      correctAnswers_ok (body_correctAnswers body) (body_totalQuestions body)"
  then have ok: "score_ok (body_score body)" "totalQuestions_ok (body_totalQuestions body)"
    "correctAnswers_ok (body_correctAnswers body) (body_totalQuestions body)" by simp_all
  from accept_iff [OF ok tt ct] obtain s t c k where
    "body_score body = JNum (Fin (of_int s))"
    "body_totalQuestions body = JNum (Fin (of_int t))"
    "body_correctAnswers body = JNum (Fin (of_int c))"
    "calculatedScore (Fin (of_int c)) (Fin (of_int t)) = Fin (of_int k)"
    "validateQuizSubmission body = Next \<longleftrightarrow> \<bar>s - k\<bar> \<le> 1" by metis
  then show "\<exists>s t c k.
           body_score body = JNum (Fin (of_int s)) \<and>
           body_totalQuestions body = JNum (Fin (of_int t)) \<and>
           body_correctAnswers body = JNum (Fin (of_int c)) \<and>
           calculatedScore (Fin (of_int c)) (Fin (of_int t)) = Fin (of_int k) \<and>
           (validateQuizSubmission body = Next \<longleftrightarrow> \<bar>s - k\<bar> \<le> 1)"
    by (intro exI conjI)
qed

theorem optional_fields_absent_witness:
  "JNull \<in> {JUndefined, JNull} \<and> JUndefined \<in> {JUndefined, JNull} \<and>
   score_ok (JNum (Fin 50)) \<and> totalQuestions_ok (JNum (Fin 4)) \<and>
   correctAnswers_ok (JNum (Fin 2)) (JNum (Fin 4)) \<and>
   validateQuizSubmission \<lparr>body_score = JNum (Fin 50), body_totalQuestions = JNum (Fin 4),
       body_correctAnswers = JNum (Fin 2), body_timeTaken = JNull,
       body_categories = JUndefined\<rparr> = Next"
proof -
  let ?b = "\<lparr>body_score = JNum (Fin 50), body_totalQuestions = JNum (Fin 4),
       body_correctAnswers = JNum (Fin 2), body_timeTaken = JNull,
       body_categories = JUndefined\<rparr>"
  have ok: "score_ok (JNum (Fin 50))" "totalQuestions_ok (JNum (Fin 4))"
    "correctAnswers_ok (JNum (Fin 2)) (JNum (Fin 4))"
    by (simp_all add: ok_defs)
  have "body_timeTaken ?b \<in> {JUndefined, JNull}" "body_categories ?b \<in> {JUndefined, JNull}"
    by simp_all
  from optional_fields_absent [OF this] ok obtain s t c k where
    "JNum (Fin 50) = JNum (Fin (rat_of_int s))" "JNum (Fin 4) = JNum (Fin (rat_of_int t))"
    "JNum (Fin 2) = JNum (Fin (rat_of_int c))"
    and k: "calculatedScore (Fin (of_int c)) (Fin (of_int t)) = Fin (of_int k)"
    and iff: "validateQuizSubmission ?b = Next \<longleftrightarrow> \<bar>s - k\<bar> \<le> 1" by auto
  then have "rat_of_int s = 50" "rat_of_int t = 4" "rat_of_int c = 2" by simp_all
  then have stc: "s = 50" "t = 4" "c = 2" by linarith+
  from k have "k = 50" unfolding stc by (simp add: calculatedScore_2_4)
  with iff stc ok show ?thesis by simp
qed

section \<open>Properties of the model \<open>QuizResult\<close> and of the leaderboard\<close>

lemma js_ge_int: "js_ge (Fin (of_int s)) (Fin (numeral n)) \<longleftrightarrow> numeral n \<le> s"
proof -
  have "js_ge (Fin (of_int s)) (Fin (of_int (numeral n))) \<longleftrightarrow> numeral n \<le> s"
    unfolding js_ge_def by (simp add: not_less del: of_int_numeral)
  then show ?thesis by simp
qed

lemma messages_agree:
  "QuizResult_getPerformanceMessage n = JStr (QuizManager_getPerformanceMessage n)"
  by (simp add: QuizResult_getPerformanceMessage_def QuizManager_getPerformanceMessage_def
      getPerformanceLevel_def messages_def)

text \<open>
  Claim C9. For every integer score (in particular every one in \<open>[0, 100]\<close>), the
  message of the client's \<open>QuizManager.getPerformanceMessage\<close> and the message of the
  model's \<open>getPerformanceMessage\<close> (through \<open>getPerformanceLevel\<close>) are the same string,
  and each of them gives two scores the same message exactly when the thresholds 90, 80,
  70 and 60 put the two scores in the same range.
\<close>

theorem performance_messages_agree:
  "QuizResult_getPerformanceMessage (Fin (of_int s)) =
     JStr (QuizManager_getPerformanceMessage (Fin (of_int s))) \<and>
   (QuizManager_getPerformanceMessage (Fin (of_int s)) =
      QuizManager_getPerformanceMessage (Fin (of_int s')) \<longleftrightarrow>
    performance_band s = performance_band s') \<and>
   (QuizResult_getPerformanceMessage (Fin (of_int s)) =
      QuizResult_getPerformanceMessage (Fin (of_int s')) \<longleftrightarrow>
    performance_band s = performance_band s')"
proof -
  have c: "QuizManager_getPerformanceMessage (Fin (of_int s)) =
      QuizManager_getPerformanceMessage (Fin (of_int s')) \<longleftrightarrow>
    performance_band s = performance_band s'"
    by (simp add: QuizManager_getPerformanceMessage_def js_ge_int performance_band_def)
  show ?thesis unfolding messages_agree using c by simp
qed


lemma score_bucket_below_100:
  assumes "0 \<le> x" "x < 100"
  shows "score_bucket x = Boundary (20 * (x div 20))"
proof -
  from assms consider "0 \<le> x \<and> x < 20" | "20 \<le> x \<and> x < 40" | "40 \<le> x \<and> x < 60"
    | "60 \<le> x \<and> x < 80" | "80 \<le> x \<and> x < 100" by linarith
  then show ?thesis
  proof cases
    case 1 then have "x div 20 = 0" by simp
    with 1 show ?thesis by (simp add: score_bucket_def)
  next
    case 2 then have "x div 20 = 1" by presburger
    with 2 show ?thesis by (simp add: score_bucket_def)
  next
    case 3 then have "x div 20 = 2" by presburger
    with 3 show ?thesis by (simp add: score_bucket_def)
  next
    case 4 then have "x div 20 = 3" by presburger
    with 4 show ?thesis by (simp add: score_bucket_def)
  next
    case 5 then have "x div 20 = 4" by presburger
    with 5 show ?thesis by (simp add: score_bucket_def)
  qed
qed

text \<open>
  Claim C6 at the score 100: the boundaries \<open>[0, 20, 40, 60, 80, 100]\<close> make the last
  bucket \<open>[80, 100)\<close>, so a document with score 100 is counted in the bucket \<open>other\<close>
  and not in the bucket of 80.
\<close>

theorem score_100_goes_to_other:
  "score_bucket 100 = Default ''other'' \<and>
   getScoreDistribution
     [\<lparr>doc_score = 100, doc_correctAnswers = 10, doc_totalQuestions = 10,
       doc_timeTaken = Some 120, doc_completedAt = 0\<rparr>,
      \<lparr>doc_score = 90, doc_correctAnswers = 9, doc_totalQuestions = 10,
       doc_timeTaken = Some 100, doc_completedAt = 0\<rparr>] =
     [\<lparr>row_id = Boundary 80, row_count = 1, row_averageTime = Some 100\<rparr>,
      \<lparr>row_id = Default ''other'', row_count = 1, row_averageTime = Some 120\<rparr>]"
  by (simp add: score_bucket_def getScoreDistribution_def avg_timeTaken_def)











section \<open>Properties of the client quiz\<close>

lemma isCorrect_iff:
  "isCorrect q \<longleftrightarrow> isAnswered q \<and> userAnswer q = Some (Fin (of_int (correctAnswer q)))"
  by (auto simp: isCorrect_def js_strict_eq_def split: option.splits)


lemma score_question_correctAnswers:
  "st_correctAnswers (score_question q i st) =
     st_correctAnswers st + (if isCorrect q then 1 else 0)"
  by (simp add: score_question_def Let_def)


lemma score_questions_correctAnswers:
  "st_correctAnswers (score_questions qs i st) =
     st_correctAnswers st + length (filter isCorrect qs)"
  by (induction qs arbitrary: i st) (simp_all add: score_question_correctAnswers)


lemma score_questions_details_length:
  "length (st_detailedResults (score_questions qs i st)) =
     length (st_detailedResults st) + length qs"
  by (induction qs arbitrary: i st) (simp_all add: score_question_def Let_def)


lemma calculateResults_fields:
  "res_correctAnswers (snd (calculateResults now this)) = length (filter isCorrect (questions this))"
  "res_totalQuestions (snd (calculateResults now this)) = length (questions this)"
  "res_score (snd (calculateResults now this)) =
     Math_round (js_mul (js_div (Fin (of_nat (length (filter isCorrect (questions this)))))
                                (Fin (of_nat (length (questions this))))) (Fin 100))"
  "res_categoryScores (snd (calculateResults now this)) =
     st_categoryScores (score_questions (questions this) 0
        \<lparr>st_correctAnswers = 0, st_categoryScores = [], st_detailedResults = []\<rparr>)"
  by (simp_all add: calculateResults_def Let_def score_questions_correctAnswers)

lemma calculateResults_score:
  "res_score (snd (calculateResults now this)) =
     calculatedScore (Fin (of_nat (length (filter isCorrect (questions this)))))
       (Fin (of_nat (length (questions this))))"
  by (simp add: calculateResults_fields(3) calculatedScore_def)

text \<open>
  Claim C2. For every session over a non-empty list of questions, the floating quotient
  \<open>(correctAnswers / totalQuestions) * 100\<close> is a finite number \<open>x\<close>, within
  \<open>2\<^sup>-\<^sup>4\<^sup>0\<close> of the exact value, and the score is \<open>\<lfloor>x + 1/2\<rfloor>\<close>, the
  number \<open>x\<close> with a half rounded up, with no tolerance. For at most 50 questions that is
  \<open>round(correctAnswers / totalQuestions * 100)\<close> in exact arithmetic, except for 23
  correct answers out of 40, where the floating quotient is below 57.5 and the score is 57.
\<close>

theorem score_is_rounded_percentage:
  fixes now :: jsnum and this :: QuizManager
  defines "correctAnswers \<equiv> length (filter isCorrect (questions this))"
    and "totalQuestions \<equiv> length (questions this)"
  assumes "questions this \<noteq> []"
  shows "(\<exists>x. js_mul (js_div (Fin (of_nat correctAnswers)) (Fin (of_nat totalQuestions)))
                (Fin 100) = Fin x \<and>
              \<bar>x - of_nat correctAnswers / of_nat totalQuestions * 100\<bar> \<le> 1 / 2 ^ 40 \<and>
              res_score (snd (calculateResults now this)) = Fin (of_int \<lfloor>x + 1 / 2\<rfloor>)) \<and>
         (totalQuestions \<le> 50 \<longrightarrow>
            res_score (snd (calculateResults now this)) =
              Fin (of_int (if correctAnswers = 23 \<and> totalQuestions = 40 then 57
                           else \<lfloor>(of_nat correctAnswers / of_nat totalQuestions * 100 + 1 / 2
                                   :: rat)\<rfloor>)))"
proof (intro conjI impI)
  have ct: "correctAnswers \<le> totalQuestions" "0 < totalQuestions"
    using assms by (simp_all add: correctAnswers_def totalQuestions_def)
  then have "(0::rat) \<le> of_nat correctAnswers"
    "(of_nat correctAnswers :: rat) \<le> of_nat totalQuestions" "(0::rat) < of_nat totalQuestions"
    by simp_all
  from percentage_error [OF this] obtain x where
    x: "js_mul (js_div (Fin (of_nat correctAnswers)) (Fin (of_nat totalQuestions))) (Fin 100) = Fin x"
    and e: "\<bar>x - of_nat correctAnswers / of_nat totalQuestions * 100\<bar> \<le> 1 / 2 ^ 40" by blast
  from x have "res_score (snd (calculateResults now this)) = Fin (of_int \<lfloor>x + 1 / 2\<rfloor>)"
    unfolding calculateResults_fields(3) correctAnswers_def totalQuestions_def by simp
  with x e show "\<exists>x. js_mul (js_div (Fin (of_nat correctAnswers)) (Fin (of_nat totalQuestions)))
                (Fin 100) = Fin x \<and>
              \<bar>x - of_nat correctAnswers / of_nat totalQuestions * 100\<bar> \<le> 1 / 2 ^ 40 \<and>
              res_score (snd (calculateResults now this)) = Fin (of_int \<lfloor>x + 1 / 2\<rfloor>)"
    by blast
  assume "totalQuestions \<le> 50"
  with ct have b: "1 \<le> int totalQuestions" "int totalQuestions \<le> 50" "0 \<le> int correctAnswers"
    "int correctAnswers \<le> int totalQuestions" by simp_all
  from calculatedScore_binary64 [OF b] have
    "calculatedScore (Fin (of_nat correctAnswers)) (Fin (of_nat totalQuestions)) =
       Fin (of_int (binary64_percent (int correctAnswers) (int totalQuestions)))" by simp
  then show "res_score (snd (calculateResults now this)) =
              Fin (of_int (if correctAnswers = 23 \<and> totalQuestions = 40 then 57
                           else \<lfloor>(of_nat correctAnswers / of_nat totalQuestions * 100 + 1 / 2
                                   :: rat)\<rfloor>))"
    unfolding calculateResults_score correctAnswers_def [symmetric] totalQuestions_def [symmetric]
    by (simp add: binary64_percent_def round_half_up_percent_def)
qed



theorem score_is_rounded_percentage_witness:
  "questions \<lparr>questions =
       replicate 8 (setUserAnswer (Fin 1)
         (new_QuizQuestion 1 ''Recycling'' ''Q1'' [''a'', ''b''] 1 ''E1'' ''easy'')) @
       replicate 2 (new_QuizQuestion 2 ''Energy'' ''Q2'' [''a'', ''b''] 0 ''E2'' ''hard''),
      currentQuestionIndex = 9, isQuizStarted = True, isQuizCompleted = False,
      startTime = Some (Fin 0), endTime = None\<rparr> \<noteq> [] \<and>
   (10::nat) \<le> 50 \<and>
   res_score (snd (calculateResults (Fin 5000) \<lparr>questions =
       replicate 8 (setUserAnswer (Fin 1)
         (new_QuizQuestion 1 ''Recycling'' ''Q1'' [''a'', ''b''] 1 ''E1'' ''easy'')) @
       replicate 2 (new_QuizQuestion 2 ''Energy'' ''Q2'' [''a'', ''b''] 0 ''E2'' ''hard''),
      currentQuestionIndex = 9, isQuizStarted = True, isQuizCompleted = False,
      startTime = Some (Fin 0), endTime = None\<rparr>)) = Fin 80"
proof -
  let ?qa = "setUserAnswer (Fin 1)
         (new_QuizQuestion 1 ''Recycling'' ''Q1'' [''a'', ''b''] 1 ''E1'' ''easy'')"
  let ?qu = "new_QuizQuestion 2 ''Energy'' ''Q2'' [''a'', ''b''] 0 ''E2'' ''hard''"
  let ?m = "\<lparr>questions = replicate 8 ?qa @ replicate 2 ?qu,
      currentQuestionIndex = 9, isQuizStarted = True, isQuizCompleted = False,
      startTime = Some (Fin 0), endTime = None\<rparr>"
  have ne: "questions ?m \<noteq> []" by simp
  have a: "isCorrect ?qa" by (simp add: isCorrect_iff setUserAnswer_def new_QuizQuestion_def)
  have u: "\<not> isCorrect ?qu" by (simp add: isCorrect_iff new_QuizQuestion_def)
  have c: "length (filter isCorrect (questions ?m)) = 8" using a u by simp
  have t: "length (questions ?m) = 10" by simp
  from score_is_rounded_percentage [OF ne, of "Fin 5000"] have
    "length (questions ?m) \<le> 50 \<longrightarrow>
       res_score (snd (calculateResults (Fin 5000) ?m)) =
         Fin (of_int (if length (filter isCorrect (questions ?m)) = 23 \<and>
                         length (questions ?m) = 40 then 57
                      else \<lfloor>(of_nat (length (filter isCorrect (questions ?m))) /
                              of_nat (length (questions ?m)) * 100 + 1 / 2 :: rat)\<rfloor>))"
    by (rule conjunct2)
  then have "res_score (snd (calculateResults (Fin 5000) ?m)) = Fin 80"
    unfolding c t by (simp add: floor_rat_numeral_div)
  with ne show ?thesis by simp
qed



lemma answer_first_length: "length (answer_first qi ai qs) = length qs"
  by (induction qs) simp_all

lemma answer_first_nth:
  "j < length qs \<Longrightarrow>
   answer_first qi ai qs ! j =
     (if js_strict_eq (Fin (of_int (qid (qs ! j)))) qi \<and>
         (\<forall>j' < j. \<not> js_strict_eq (Fin (of_int (qid (qs ! j')))) qi)
      then setUserAnswer ai (qs ! j) else qs ! j)"
proof (induction qs arbitrary: j)
  case Nil
  then show ?case by simp
next
  case (Cons q qs)
  show ?case
  proof (cases j)
    case 0
    then show ?thesis by simp
  next
    case (Suc n)
    with Cons.prems have n: "n < length qs" by simp
    show ?thesis
    proof (cases "js_strict_eq (Fin (of_int (qid q))) qi")
      case True
      then have "\<not> (\<forall>j' < Suc n. \<not> js_strict_eq (Fin (of_int (qid ((q # qs) ! j')))) qi)"
        by (auto intro: exI [of _ 0])
      then have "(if js_strict_eq (Fin (of_int (qid ((q # qs) ! Suc n)))) qi \<and>
            (\<forall>j' < Suc n. \<not> js_strict_eq (Fin (of_int (qid ((q # qs) ! j')))) qi)
          then setUserAnswer ai ((q # qs) ! Suc n) else (q # qs) ! Suc n) = qs ! n"
        by (simp only: simp_thms if_False nth_Cons_Suc)
      moreover have "answer_first qi ai (q # qs) ! Suc n = qs ! n" using True by simp
      ultimately show ?thesis unfolding Suc by (simp only:)
    next
      case False
      have e: "(\<forall>j' < Suc n. \<not> js_strict_eq (Fin (of_int (qid ((q # qs) ! j')))) qi) \<longleftrightarrow>
          (\<forall>j' < n. \<not> js_strict_eq (Fin (of_int (qid (qs ! j')))) qi)"
        using False by (auto simp: less_Suc_eq_0_disj)
      have "answer_first qi ai (q # qs) ! Suc n = answer_first qi ai qs ! n"
        using False by simp
      also have "\<dots> = (if js_strict_eq (Fin (of_int (qid (qs ! n)))) qi \<and>
            (\<forall>j' < n. \<not> js_strict_eq (Fin (of_int (qid (qs ! j')))) qi)
          then setUserAnswer ai (qs ! n) else qs ! n)" by (rule Cons.IH [OF n])
      also have "\<dots> = (if js_strict_eq (Fin (of_int (qid ((q # qs) ! Suc n)))) qi \<and>
            (\<forall>j' < Suc n. \<not> js_strict_eq (Fin (of_int (qid ((q # qs) ! j')))) qi)
          then setUserAnswer ai ((q # qs) ! Suc n) else (q # qs) ! Suc n)"
        by (simp only: e nth_Cons_Suc)
      finally show ?thesis unfolding Suc .
    qed
  qed
qed

lemma answer_first_no_match:
  "find (\<lambda>q. js_strict_eq (Fin (of_int (qid q))) qi) qs = None \<Longrightarrow> answer_first qi ai qs = qs"
  by (induction qs) (simp_all split: if_splits)

lemma handleAnswerChange_questions:
  "questions (handleAnswerChange qi ai this) = answer_first qi ai (questions this)"
  by (cases "find (\<lambda>q. js_strict_eq (Fin (of_int (qid q))) qi) (questions this)")
    (simp_all add: handleAnswerChange_def answer_first_no_match)

lemma handleAnswerChange_position:
  "currentQuestionIndex (handleAnswerChange qi ai this) = currentQuestionIndex this"
  by (simp add: handleAnswerChange_def split: option.splits)

text \<open>
  Claim C4, as stated, fails at the index 7 of a question with four options: the
  specification's \<open>selectAnswer\<close> fails with \<open>OutOfRangeError\<close>, while \<open>setUserAnswer\<close>
  and \<open>handleAnswerChange\<close> return and record the answer 7.
\<close>

theorem setUserAnswer_out_of_range_counterexample:
  "\<not> valid_option_index
       (new_QuizQuestion 1 ''Recycling'' ''Q1'' [''a'', ''b'', ''c'', ''d''] 0 ''E1'' ''easy'')
       (Fin 7) \<and>
   spec_selectAnswer (Fin 7)
       (new_QuizQuestion 1 ''Recycling'' ''Q1'' [''a'', ''b'', ''c'', ''d''] 0 ''E1'' ''easy'') =
     Inl OutOfRangeError \<and>
   setUserAnswer (Fin 7)
       (new_QuizQuestion 1 ''Recycling'' ''Q1'' [''a'', ''b'', ''c'', ''d''] 0 ''E1'' ''easy'') =
     \<lparr>qid = 1, category = ''Recycling'', question = ''Q1'', options = [''a'', ''b'', ''c'', ''d''],
      correctAnswer = 0, explanation = ''E1'', difficulty = ''easy'',
      userAnswer = Some (Fin 7), isAnswered = True\<rparr> \<and>
   handleAnswerChange (Fin 1) (Fin 7)
     \<lparr>questions =
        [new_QuizQuestion 1 ''Recycling'' ''Q1'' [''a'', ''b'', ''c'', ''d''] 0 ''E1'' ''easy''],
      currentQuestionIndex = 0, isQuizStarted = True, isQuizCompleted = False,
      startTime = Some (Fin 0), endTime = None\<rparr> =
     \<lparr>questions =
        [\<lparr>qid = 1, category = ''Recycling'', question = ''Q1'',
          options = [''a'', ''b'', ''c'', ''d''], correctAnswer = 0, explanation = ''E1'',
          difficulty = ''easy'', userAnswer = Some (Fin 7), isAnswered = True\<rparr>],
      currentQuestionIndex = 0, isQuizStarted = True, isQuizCompleted = False,
      startTime = Some (Fin 0), endTime = None\<rparr>"
  by (simp add: valid_option_index_def spec_selectAnswer_def setUserAnswer_def
      new_QuizQuestion_def handleAnswerChange_def js_strict_eq_def integral_def)

text \<open>
  Claim C4, as the code has it. For every question and every index, valid or not,
  \<open>setUserAnswer\<close> returns with \<open>userAnswer\<close> set to that index and \<open>isAnswered\<close> true,
  the other fields unchanged; for a valid index that is the result of the
  specification's \<open>selectAnswer\<close>. \<open>handleAnswerChange\<close> does this to the first question
  with the given id and leaves the other questions and the current position unchanged.
\<close>

theorem setUserAnswer_records_any_index:
  "userAnswer (setUserAnswer i q) = Some i \<and> isAnswered (setUserAnswer i q) \<and>
   setUserAnswer i q = q\<lparr>userAnswer := Some i, isAnswered := True\<rparr> \<and>
   (valid_option_index q i \<longrightarrow> spec_selectAnswer i q = Inr (setUserAnswer i q)) \<and>
   currentQuestionIndex (handleAnswerChange questionId i this) = currentQuestionIndex this \<and>
   length (questions (handleAnswerChange questionId i this)) = length (questions this) \<and>
   (\<forall>j < length (questions this).
      questions (handleAnswerChange questionId i this) ! j =
        (if js_strict_eq (Fin (of_int (qid (questions this ! j)))) questionId \<and>
            (\<forall>j' < j. \<not> js_strict_eq (Fin (of_int (qid (questions this ! j')))) questionId)
         then setUserAnswer i (questions this ! j) else questions this ! j))"
  by (simp add: setUserAnswer_def [of i q] spec_selectAnswer_def handleAnswerChange_position
      handleAnswerChange_questions answer_first_length answer_first_nth)

theorem setUserAnswer_records_any_index_witness:
  "valid_option_index
       (new_QuizQuestion 1 ''Recycling'' ''Q1'' [''a'', ''b'', ''c'', ''d''] 0 ''E1'' ''easy'')
       (Fin 2) \<and>
   spec_selectAnswer (Fin 2)
       (new_QuizQuestion 1 ''Recycling'' ''Q1'' [''a'', ''b'', ''c'', ''d''] 0 ''E1'' ''easy'') =
     Inr (setUserAnswer (Fin 2)
       (new_QuizQuestion 1 ''Recycling'' ''Q1'' [''a'', ''b'', ''c'', ''d''] 0 ''E1'' ''easy'')) \<and>
   (0::nat) < length [new_QuizQuestion 1 ''Recycling'' ''Q1'' [''a'', ''b'', ''c'', ''d''] 0 ''E1''
       ''easy''] \<and>
   userAnswer (questions (handleAnswerChange (Fin 1) (Fin 2)
     \<lparr>questions =
        [new_QuizQuestion 1 ''Recycling'' ''Q1'' [''a'', ''b'', ''c'', ''d''] 0 ''E1'' ''easy''],
      currentQuestionIndex = 0, isQuizStarted = True, isQuizCompleted = False,
      startTime = Some (Fin 0), endTime = None\<rparr>) ! 0) = Some (Fin 2)"
proof -
  let ?q = "new_QuizQuestion 1 ''Recycling'' ''Q1'' [''a'', ''b'', ''c'', ''d''] 0 ''E1'' ''easy''"
  let ?m = "\<lparr>questions = [?q],
      currentQuestionIndex = 0, isQuizStarted = True, isQuizCompleted = False,
      startTime = Some (Fin 0), endTime = None\<rparr>"
  have v: "valid_option_index ?q (Fin 2)"
    by (simp add: valid_option_index_def new_QuizQuestion_def integral_def)
  note th = setUserAnswer_records_any_index [of "Fin 2" ?q "Fin 1" ?m]
  from th v have s: "spec_selectAnswer (Fin 2) ?q = Inr (setUserAnswer (Fin 2) ?q)" by blast
  have l: "(0::nat) < length [?q]" by simp
  from th have "\<forall>j < length (questions ?m).
      questions (handleAnswerChange (Fin 1) (Fin 2) ?m) ! j =
        (if js_strict_eq (Fin (of_int (qid (questions ?m ! j)))) (Fin 1) \<and>
            (\<forall>j' < j. \<not> js_strict_eq (Fin (of_int (qid (questions ?m ! j')))) (Fin 1))
         then setUserAnswer (Fin 2) (questions ?m ! j) else questions ?m ! j)" by blast
  then have "questions (handleAnswerChange (Fin 1) (Fin 2) ?m) ! 0 =
        (if js_strict_eq (Fin (of_int (qid (questions ?m ! 0)))) (Fin 1) \<and>
            (\<forall>j' < 0. \<not> js_strict_eq (Fin (of_int (qid (questions ?m ! j')))) (Fin 1))
         then setUserAnswer (Fin 2) (questions ?m ! 0) else questions ?m ! 0)"
    using l by simp
  then have h: "userAnswer (questions (handleAnswerChange (Fin 1) (Fin 2) ?m) ! 0) = Some (Fin 2)"
    by (simp add: js_strict_eq_def new_QuizQuestion_def setUserAnswer_def)
  from v s l h show ?thesis by (intro conjI)
qed

text \<open>
  Claim C5, as stated, fails at the session without questions: the specification's
  Score Calculator fails with \<open>InvalidBankError\<close>, while \<open>calculateResults\<close> returns a
  result whose score is the \<open>NaN\<close> of \<open>0 / 0\<close>.
\<close>

theorem calculateResults_empty_bank_counterexample:
  "spec_scoreCalculator (Fin 5000)
     \<lparr>questions = [], currentQuestionIndex = 0, isQuizStarted = True, isQuizCompleted = False,
      startTime = Some (Fin 0), endTime = None\<rparr> = Inl InvalidBankError \<and>
   calculateResults (Fin 5000)
     \<lparr>questions = [], currentQuestionIndex = 0, isQuizStarted = True, isQuizCompleted = False,
      startTime = Some (Fin 0), endTime = None\<rparr> =
     (\<lparr>questions = [], currentQuestionIndex = 0, isQuizStarted = True, isQuizCompleted = False,
       startTime = Some (Fin 0), endTime = Some (Fin 5000)\<rparr>,
      \<lparr>res_score = NaN, res_correctAnswers = 0, res_totalQuestions = 0, res_timeTaken = Fin 5,
       res_categoryScores = [], res_detailedResults = [], res_completedAt = Fin 5000\<rparr>)"
  by (simp add: spec_scoreCalculator_def calculateResults_def fl_eval)

text \<open>
  Claim C5, as the code has it. For a session whose list of questions is empty,
  \<open>calculateResults\<close> raises no error: it divides 0 by 0 and returns a result with score
  \<open>NaN\<close>, no correct answer, no question, no category and no detail, and it sets
  \<open>endTime\<close>.
\<close>

theorem calculateResults_empty_bank:
  assumes "questions this = []"
  shows "res_score (snd (calculateResults now this)) = NaN \<and>
         res_correctAnswers (snd (calculateResults now this)) = 0 \<and>
         res_totalQuestions (snd (calculateResults now this)) = 0 \<and>
         res_categoryScores (snd (calculateResults now this)) = [] \<and>
         res_detailedResults (snd (calculateResults now this)) = [] \<and>
         fst (calculateResults now this) = this\<lparr>endTime := Some now\<rparr>"
  using assms by (simp add: calculateResults_def Let_def)

theorem calculateResults_empty_bank_witness:
  "questions \<lparr>questions = [], currentQuestionIndex = 0, isQuizStarted = False,
      isQuizCompleted = False, startTime = None, endTime = None\<rparr> = [] \<and>
   res_score (snd (calculateResults (Fin 1000)
     \<lparr>questions = [], currentQuestionIndex = 0, isQuizStarted = False,
      isQuizCompleted = False, startTime = None, endTime = None\<rparr>)) = NaN \<and>
   res_totalQuestions (snd (calculateResults (Fin 1000)
     \<lparr>questions = [], currentQuestionIndex = 0, isQuizStarted = False,
      isQuizCompleted = False, startTime = None, endTime = None\<rparr>)) = 0"
proof -
  let ?m = "\<lparr>questions = [], currentQuestionIndex = 0, isQuizStarted = False,
      isQuizCompleted = False, startTime = None, endTime = None\<rparr>"
  have e: "questions ?m = []" by simp
  from calculateResults_empty_bank [OF e, of "Fin 1000"] e show ?thesis by blast
qed

end
